theory Spec2Isabelle
  imports Main "HOL-Library.AList" "HOL-Library.Sublist"
begin

section \<open>Strings\<close>

text \<open>
  A JavaScript string is modelled as a \<open>string\<close>, one \<open>char\<close> per code unit. The model
  covers the code units U+0000 to U+00FF (Latin-1); on that range the three string
  operations \<open>slugify\<close> uses are written out below as ECMAScript defines them.
\<close>

definition code :: "char \<Rightarrow> nat" where
  "code c = of_char c"

text \<open>
  The class \<open>\s\<close> of a JavaScript regular expression (and the characters \<open>trim\<close>
  removes): TAB, LF, VT, FF, CR, SPACE and NO-BREAK SPACE are its members below U+0100.
\<close>

definition isWhiteSpace :: "char \<Rightarrow> bool" where
  "isWhiteSpace c = (code c = 9 \<or> code c = 10 \<or> code c = 11 \<or> code c = 12 \<or> code c = 13
     \<or> code c = 32 \<or> code c = 160)"

text \<open>
  \<open>String.prototype.toLowerCase\<close>: A-Z, and the Latin-1 capitals U+00C0 to U+00DE
  except the multiplication sign U+00D7, move up by 32; every other code unit stays.
\<close>

definition lowerChar :: "char \<Rightarrow> char" where
  "lowerChar c =
     (if (65 \<le> code c \<and> code c \<le> 90) \<or> (192 \<le> code c \<and> code c \<le> 222 \<and> code c \<noteq> 215)
      then char_of (code c + 32) else c)"

definition toLowerCase :: "string \<Rightarrow> string" where
  "toLowerCase s = map lowerChar s"

text \<open>
  \<open>.replace(/\s+/g, '-')\<close>: the scan goes left to right; at a whitespace character the
  greedy \<open>\s+\<close> takes the whole run and one hyphen is written; any other character is
  copied.
\<close>

function replaceWhitespaceRuns :: "string \<Rightarrow> string" where
  "replaceWhitespaceRuns [] = []"
| "replaceWhitespaceRuns (c # cs) =
     (if isWhiteSpace c then CHR ''-'' # replaceWhitespaceRuns (dropWhile isWhiteSpace cs)
      else c # replaceWhitespaceRuns cs)"
  by pat_completeness auto
termination
  by (relation "measure length") (simp_all add: length_dropWhile_le less_Suc_eq_le)

text \<open>The character class \<open>[a-z0-9\-]\<close>.\<close>

definition isSlugChar :: "char \<Rightarrow> bool" where
  "isSlugChar c = ((97 \<le> code c \<and> code c \<le> 122) \<or> (48 \<le> code c \<and> code c \<le> 57) \<or> c = CHR ''-'')"

text \<open>\<open>.replace(/[^a-z0-9\-]/g, '')\<close>: every character outside the class is deleted.\<close>

definition stripDisallowed :: "string \<Rightarrow> string" where
  "stripDisallowed s = filter isSlugChar s"

text \<open>\<open>slugify(name, suffix)\<close> of cx.js.\<close>

definition slugify :: "string \<Rightarrow> string \<Rightarrow> string" where
  "slugify name sfx =
     stripDisallowed (replaceWhitespaceRuns (toLowerCase name)) @ ''-'' @ sfx"

text \<open>The resource class: the two keys of \<open>MODES\<close>, and the string each is in the code.\<close>

datatype mode = Css | Js

fun modeString :: "mode \<Rightarrow> string" where
  "modeString Css = ''css''"
| "modeString Js = ''js''"

text \<open>The per-class configuration table \<open>MODES\<close>.\<close>

fun modeFileName :: "mode \<Rightarrow> string" where
  "modeFileName Css = ''global.css''"
| "modeFileName Js = ''global.js''"

fun modeYamlType :: "mode \<Rightarrow> string" where
  "modeYamlType Css = ''globalCSS''"
| "modeYamlType Js = ''globalJS''"

text \<open>\<open>String.prototype.trim\<close>: whitespace is removed at both ends.\<close>

definition trim :: "string \<Rightarrow> string" where
  "trim s = rev (dropWhile isWhiteSpace (rev (dropWhile isWhiteSpace s)))"

text \<open>\<open>Array.prototype.join\<close>.\<close>

fun join :: "string \<Rightarrow> string list \<Rightarrow> string" where
  "join sep [] = []"
| "join sep [x] = x"
| "join sep (x # y # ys) = x @ sep @ join sep (y # ys)"

definition newline :: string where
  "newline = [CHR 0x0A]"

subsection \<open>Array indices as strings\<close>

text \<open>
  \<open>i.toString()\<close> of an array index, and \<open>parseInt(s, 10)\<close>: leading whitespace is
  skipped, one sign is read, then the longest run of decimal digits; no digit gives
  \<open>NaN\<close>, which is \<open>None\<close> here.
\<close>

definition digitChar :: "nat \<Rightarrow> char" where
  "digitChar d = char_of (48 + d)"

function natToString :: "nat \<Rightarrow> string" where
  "natToString n =
     (if n < 10 then [digitChar n] else natToString (n div 10) @ [digitChar (n mod 10)])"
  by pat_completeness auto
termination
  by (relation "measure id") auto

declare natToString.simps [simp del]

definition isDigit :: "char \<Rightarrow> bool" where
  "isDigit c = (48 \<le> code c \<and> code c \<le> 57)"

definition digitsValue :: "string \<Rightarrow> nat" where
  "digitsValue ds = foldl (\<lambda>acc c. 10 * acc + (code c - 48)) 0 ds"

definition parseInt10 :: "string \<Rightarrow> int option" where
  "parseInt10 s =
     (let t = dropWhile isWhiteSpace s;
          neg = (case t of [] \<Rightarrow> False | c # _ \<Rightarrow> c = CHR ''-'');
          u = (case t of [] \<Rightarrow> [] | c # cs \<Rightarrow> if c = CHR ''+'' \<or> c = CHR ''-'' then cs else t);
          z = takeWhile isDigit u
      in if z = [] then None
         else Some ((if neg then - 1 else 1) * int (digitsValue z)))"

text \<open>
  \<open>xs[k]\<close> for the number \<open>parseInt\<close> returned: \<open>undefined\<close> (\<open>None\<close>) for \<open>NaN\<close>
  and for an index outside the array.
\<close>

definition elementAt :: "'a list \<Rightarrow> int option \<Rightarrow> 'a option" where
  "elementAt xs k =
     (case k of
        None \<Rightarrow> None
      | Some i \<Rightarrow> if 0 \<le> i \<and> i < int (length xs) then Some (xs ! nat i) else None)"

section \<open>The world outside the program\<close>

text \<open>
  What can be thrown: an \<open>Error\<close> or a \<open>TypeError\<close> with its message, an error of the
  file system with its code, and \<open>process.exit\<close> with its status.
\<close>

datatype error = Error string | TypeError string | SystemError string | Exit nat

text \<open>
  How a call ends: it returns, it throws (an \<open>async\<close> function: its promise is
  rejected), or the promise it awaits is never settled.
\<close>

datatype 'a completion = Returned 'a | Threw error | Hangs

text \<open>
  An element handle as cheerio gives it to the \<open>each\<close> callback: \<open>el.tagName\<close>,
  \<open>$(el).attr(name)\<close> (\<open>undefined\<close> is \<open>None\<close>), and \<open>$(el).html()\<close>, the serialised
  children of the element, a string for every element of a selection.
\<close>

record element =
  tagName :: string
  attribs :: "(string \<times> string) list"
  innerHtml :: string

definition attr :: "element \<Rightarrow> string \<Rightarrow> string option" where
  "attr el a = map_of (attribs el) a"

text \<open>Truthiness of a value that is a string or \<open>undefined\<close>.\<close>

fun truthy :: "string option \<Rightarrow> bool" where
  "truthy None = False"
| "truthy (Some s) = (s \<noteq> [])"

text \<open>The objects \<open>parseResources\<close> pushes: \<open>{type, label, url}\<close> and \<open>{type, label, content}\<close>.\<close>

datatype resource =
    External (label: string) (url: string)
  | Inline (label: string) (content: string)

text \<open>One line of console output: the call made, and which message of cx.js it printed.\<close>

datatype message =
    Fetching string mode
  | NoResourcesFound mode
  | AllFlagIncluded mode
  | NoneSelected mode
  | SelectedBlocks mode nat
  | LoadedExternal string
  | FailedToLoad string string
  | LoadedInline string
  | ZipCreated "string list"
  | SavedWithoutZip "string list"
  | OverwriteNote
  | Usage
  | InvalidMode

datatype printed = Log message | Warn message | ConsoleError message

text \<open>A checkbox item \<open>{name, value, checked}\<close>.\<close>

record choice =
  choiceName :: string
  choiceValue :: string
  choiceChecked :: bool

text \<open>A YAML document, as the object handed to \<open>yaml.stringify\<close>.\<close>

datatype yval = YStr string | YBool bool | YSeq "yval list" | YMap "(string \<times> yval) list"

text \<open>The file system: a path is its list of segments.\<close>

datatype node = Dir | File string | Archive "(string \<times> string) list"

type_synonym path = "string list"

type_synonym disk = "path \<Rightarrow> node option"

text \<open>
  What the program reads from outside, one field per collaborator:
  \<^item> \<open>axiosGet\<close>: \<open>axios.get(url)\<close> settles with \<open>res.data\<close> (\<open>Inr\<close>) or rejects with an error
    whose message is given (\<open>Inl\<close>), also on a non-2xx status;
  \<^item> \<open>cheerio\<close>: \<open>cheerio.load(html)\<close> followed by a selector query: the matched elements
    in document order;
  \<^item> \<open>resolveURL\<close>: \<open>new URL(ref, base).href\<close>, \<open>None\<close> where the constructor throws;
  \<^item> \<open>checkbox\<close>: the values the checkbox prompt returns for the items shown (\<open>Inr\<close>), or
    the error it rejects with (\<open>Inl\<close>);
  \<^item> \<open>inputPrompt\<close>: the name the validated input prompt returns;
  \<^item> \<open>yamlStringify\<close>: \<open>yaml.stringify\<close>;
  \<^item> \<open>arrival\<close>: for each class, the order in which the responses of
    \<open>downloadResources\<close> arrive, as positions in its argument;
  \<^item> \<open>dirname\<close>: the directory of the script; \<open>includeAll\<close> and \<open>noZip\<close>: the flags.
\<close>

record env =
  axiosGet :: "string \<Rightarrow> string + string"
  cheerio :: "string \<Rightarrow> string \<Rightarrow> element list"
  resolveURL :: "string \<Rightarrow> string \<Rightarrow> string option"
  checkbox :: "mode \<Rightarrow> choice list \<Rightarrow> error + string list"
  inputPrompt :: "mode \<Rightarrow> string"
  yamlStringify :: "yval \<Rightarrow> string"
  arrival :: "mode \<Rightarrow> nat list"
  dirname :: path
  includeAll :: bool
  noZip :: bool

text \<open>
  What the program changes: the console, the requests sent, the checkbox prompts shown,
  the input prompts shown, and the disk.
\<close>

record world =
  console :: "printed list"
  requests :: "string list"
  prompted :: "choice list list"
  asked :: "mode list"
  disk :: disk

definition say :: "printed \<Rightarrow> world \<Rightarrow> world" where
  "say out w = w\<lparr>console := console w @ [out]\<rparr>"

section \<open>The program\<close>

subsection \<open>fetchPage\<close>

text \<open>One \<open>axios.get\<close>; a rejection is caught and rethrown as a new \<open>Error\<close>.\<close>

definition fetchPage :: "env \<Rightarrow> string \<Rightarrow> world \<Rightarrow> string completion \<times> world" where
  "fetchPage E targetUrl w =
     (let w1 = w\<lparr>requests := requests w @ [targetUrl]\<rparr>
      in case axiosGet E targetUrl of
           Inr body \<Rightarrow> (Returned body, w1)
         | Inl msg \<Rightarrow> (Threw (Error (''Failed to fetch page: '' @ msg)), w1))"

subsection \<open>parseResources\<close>

text \<open>
  The state of the \<open>each\<close> loop is the array \<open>found\<close> and \<open>inlineCounter\<close>. A callback
  that throws ends the loop: \<open>new URL\<close> is the one call of the callbacks that can.
\<close>

definition cssCallback ::
  "env \<Rightarrow> string \<Rightarrow> resource list \<times> nat \<Rightarrow> element \<Rightarrow> error + resource list \<times> nat" where
  "cssCallback E baseUrl st el =
     (case st of (found, inlineCounter) \<Rightarrow>
        if tagName el = ''link'' then
          (let href = attr el ''href''
           in if truthy href then
                (case resolveURL E (case href of Some h \<Rightarrow> h | None \<Rightarrow> []) baseUrl of
                   None \<Rightarrow> Inl (TypeError ''Invalid URL'')
                 | Some full \<Rightarrow> Inr (found @ [External full full], inlineCounter))
              else Inr (found, inlineCounter))
        else
          Inr (found @ [Inline (''<style> inline #'' @ natToString inlineCounter) (innerHtml el)],
               inlineCounter + 1))"

definition jsCallback ::
  "env \<Rightarrow> string \<Rightarrow> resource list \<times> nat \<Rightarrow> element \<Rightarrow> error + resource list \<times> nat" where
  "jsCallback E baseUrl st el =
     (case st of (found, inlineCounter) \<Rightarrow>
        let src = attr el ''src''
        in if truthy src then
             (case resolveURL E (case src of Some h \<Rightarrow> h | None \<Rightarrow> []) baseUrl of
                None \<Rightarrow> Inl (TypeError ''Invalid URL'')
              | Some full \<Rightarrow> Inr (found @ [External full full], inlineCounter))
           else if trim (innerHtml el) \<noteq> [] then
             Inr (found @ [Inline (''<script> inline #'' @ natToString inlineCounter) (innerHtml el)],
                  inlineCounter + 1)
           else Inr (found, inlineCounter))"

fun each :: "('s \<Rightarrow> element \<Rightarrow> error + 's) \<Rightarrow> 's \<Rightarrow> element list \<Rightarrow> error + 's" where
  "each f st [] = Inr st"
| "each f st (el # els) = (case f st el of Inl e \<Rightarrow> Inl e | Inr st' \<Rightarrow> each f st' els)"

fun selector :: "mode \<Rightarrow> string" where
  "selector Css = ''link[rel='' @ [CHR 0x22] @ ''stylesheet'' @ [CHR 0x22] @ ''], style''"
| "selector Js = ''script''"

fun callback ::
  "mode \<Rightarrow> env \<Rightarrow> string \<Rightarrow> resource list \<times> nat \<Rightarrow> element \<Rightarrow> error + resource list \<times> nat" where
  "callback Css = cssCallback"
| "callback Js = jsCallback"

definition parseResources :: "env \<Rightarrow> string \<Rightarrow> string \<Rightarrow> mode \<Rightarrow> error + resource list" where
  "parseResources E html baseUrl currentMode =
     (case each (callback currentMode E baseUrl) ([], 1) (cheerio E html (selector currentMode)) of
        Inl e \<Rightarrow> Inl e
      | Inr (found, inlineCounter) \<Rightarrow> Inr found)"

subsection \<open>promptSelection\<close>

text \<open>
  The result is an array whose entries are resources or \<open>undefined\<close> (\<open>None\<close>): an entry
  is \<open>resources[parseInt(i, 10)]\<close> for a value \<open>i\<close> the prompt returned. When the awaited
  prompt rejects, so does \<open>promptSelection\<close>.
\<close>

definition choicesFor :: "resource list \<Rightarrow> choice list" where
  "choicesFor resources =
     map (\<lambda>(item, i). \<lparr>choiceName = label item, choiceValue = natToString i, choiceChecked = True\<rparr>)
       (zip resources [0..<length resources])"

definition promptSelection ::
  "env \<Rightarrow> resource list \<Rightarrow> mode \<Rightarrow> bool \<Rightarrow> world \<Rightarrow> resource option list completion \<times> world" where
  "promptSelection E resources currentMode includeAllFlag w =
     (if includeAllFlag then
        (Returned (map Some resources), say (Log (AllFlagIncluded currentMode)) w)
      else
        let w1 = w\<lparr>prompted := prompted w @ [choicesFor resources]\<rparr>
        in case checkbox E currentMode (choicesFor resources) of
             Inl e \<Rightarrow> (Threw e, w1)
           | Inr choices \<Rightarrow>
               if length choices = 0 then (Returned [], say (Log (NoneSelected currentMode)) w1)
               else (Returned (map (\<lambda>i. elementAt resources (parseInt10 i)) choices), w1))"

subsection \<open>downloadResources\<close>

text \<open>
  \<open>resources.map(async ...)\<close> runs each callback up to its first \<open>await\<close>: for an
  external resource the request is sent and the promise is pending; an inline one logs
  and fulfils at once; on \<open>undefined\<close> the read of \<open>res.type\<close> throws and the promise is
  rejected. A rejection can happen only there, and then \<open>Promise.all\<close> rejects with the
  first one before any response arrives. Otherwise the responses arrive, those
  \<open>arrival\<close> names first and in its order, the others after them in the order they were
  requested; each continues its callback. \<open>Promise.all\<close> gives the values by position;
  while a promise is pending it gives nothing (\<open>None\<close>) and the \<open>await\<close> on it does not
  return.
\<close>

datatype promise = Waiting | Fulfilled string | Rejected error

definition header :: "string \<Rightarrow> string" where
  "header l = ''/* '' @ l @ '' */'' @ newline"

fun start :: "resource option \<Rightarrow> world \<Rightarrow> promise \<times> world" where
  "start None w =
     (Rejected (TypeError (''Cannot read properties of undefined (reading '' @ [CHR 0x27]
        @ ''type'' @ [CHR 0x27] @ '')'')), w)"
| "start (Some (External l u)) w = (Waiting, w\<lparr>requests := requests w @ [u]\<rparr>)"
| "start (Some (Inline l c)) w = (Fulfilled (header l @ c), say (Log (LoadedInline l)) w)"

fun startAll :: "resource option list \<Rightarrow> world \<Rightarrow> promise list \<times> world" where
  "startAll [] w = ([], w)"
| "startAll (r # rs) w =
     (case start r w of (p, w1) \<Rightarrow> (case startAll rs w1 of (ps, w2) \<Rightarrow> (p # ps, w2)))"

fun firstRejection :: "promise list \<Rightarrow> error option" where
  "firstRejection [] = None"
| "firstRejection (Rejected e # ps) = Some e"
| "firstRejection (p # ps) = firstRejection ps"

definition arrive ::
  "env \<Rightarrow> resource option list \<Rightarrow> nat \<Rightarrow> promise list \<times> world \<Rightarrow> promise list \<times> world" where
  "arrive E resources i st =
     (case st of (ps, w) \<Rightarrow>
        if i < length resources \<and> i < length ps \<and> ps ! i = Waiting then
          (case resources ! i of
             Some (External l u) \<Rightarrow>
               (case axiosGet E u of
                  Inr body \<Rightarrow> (ps[i := Fulfilled (header u @ body)], say (Log (LoadedExternal u)) w)
                | Inl msg \<Rightarrow> (ps[i := Fulfilled []], say (Warn (FailedToLoad u msg)) w))
           | _ \<Rightarrow> (ps, w))
        else (ps, w))"

fun fulfilledValues :: "promise list \<Rightarrow> string list option" where
  "fulfilledValues [] = Some []"
| "fulfilledValues (Fulfilled v # ps) =
     (case fulfilledValues ps of None \<Rightarrow> None | Some vs \<Rightarrow> Some (v # vs))"
| "fulfilledValues (p # ps) = None"

definition downloadResources ::
  "env \<Rightarrow> nat list \<Rightarrow> resource option list \<Rightarrow> world \<Rightarrow> string completion \<times> world" where
  "downloadResources E order resources w =
     (case startAll resources w of
        (ps0, w0) \<Rightarrow>
          (case firstRejection ps0 of
             Some e \<Rightarrow> (Threw e, w0)
           | None \<Rightarrow>
               (case fold (arrive E resources) (order @ [0..<length resources]) (ps0, w0) of
                  (ps, w1) \<Rightarrow>
                    (case fulfilledValues ps of
                       None \<Rightarrow> (Hangs, w1)
                     | Some results \<Rightarrow> (Returned (join (newline @ newline) results), w1)))))"

subsection \<open>generateYaml\<close>

text \<open>
  An object is the list of its properties in the order in which they are enumerated:
  the properties whose names are array indices first, by ascending index, then the
  others in the order they were created. Defining a property that exists replaces its
  value where it stands.
\<close>

fun lexLess :: "string \<Rightarrow> string \<Rightarrow> bool" where
  "lexLess [] [] = False"
| "lexLess [] (y # ys) = True"
| "lexLess (x # xs) [] = False"
| "lexLess (x # xs) (y # ys) = (code x < code y \<or> (x = y \<and> lexLess xs ys))"

text \<open>
  Decimal numerals without a leading zero compare by length, then digit by digit. An
  array index is such a numeral below \<open>2^32 - 1\<close>.
\<close>

definition indexLess :: "string \<Rightarrow> string \<Rightarrow> bool" where
  "indexLess a b = (length a < length b \<or> (length a = length b \<and> lexLess a b))"

definition isArrayIndex :: "string \<Rightarrow> bool" where
  "isArrayIndex k =
     (k \<noteq> [] \<and> list_all isDigit k \<and> (length k = 1 \<or> hd k \<noteq> CHR ''0'')
      \<and> indexLess k ''4294967295'')"

definition defineProperty :: "string \<Rightarrow> 'v \<Rightarrow> (string \<times> 'v) list \<Rightarrow> (string \<times> 'v) list" where
  "defineProperty k v ps =
     (if k \<in> set (map fst ps) then AList.update k v ps
      else if isArrayIndex k then
        (let indexed = takeWhile (\<lambda>p. isArrayIndex (fst p)) ps;
             named = dropWhile (\<lambda>p. isArrayIndex (fst p)) ps
         in takeWhile (\<lambda>p. indexLess (fst p) k) indexed @ [(k, v)]
              @ dropWhile (\<lambda>p. indexLess (fst p) k) indexed @ named)
      else ps @ [(k, v)])"

definition scriptElementAttributes :: "(string \<times> yval) list" where
  "scriptElementAttributes =
     [(''async'', YBool True),
      (''data-attribute'', YStr ''value''),
      (''data-senna-track'', YStr ''permanent''),
      (''fetchpriority'', YStr ''low'')]"

definition setProperty :: "string \<Rightarrow> yval \<Rightarrow> yval \<Rightarrow> yval" where
  "setProperty k v obj = (case obj of YMap ps \<Rightarrow> YMap (defineProperty k v ps) | _ \<Rightarrow> obj)"

definition manifestBase :: "string \<Rightarrow> string \<Rightarrow> mode \<Rightarrow> string \<Rightarrow> (string \<times> yval) list" where
  "manifestBase technicalName visibleName currentMode fileName =
     (let base =
            defineProperty technicalName
              (YMap [(''name'', YStr visibleName),
                     (''type'', YStr (modeYamlType currentMode)),
                     (''url'', YStr fileName)])
              (defineProperty ''assemble''
                 (YSeq [YMap [(''from'', YStr ''assets''), (''into'', YStr ''static'')]]) [])
      in if currentMode = Js then
           AList.map_entry technicalName
             (setProperty ''scriptElementAttributes'' (YMap scriptElementAttributes)) base
         else base)"

definition generateYaml :: "env \<Rightarrow> string \<Rightarrow> string \<Rightarrow> mode \<Rightarrow> string \<Rightarrow> string" where
  "generateYaml E technicalName visibleName currentMode fileName =
     yamlStringify E (YMap (manifestBase technicalName visibleName currentMode fileName))"

subsection \<open>saveFiles\<close>

text \<open>
  \<open>path.join(dir, name)\<close>, for a normalised absolute \<open>dir\<close>: the name is cut at the
  separators; an empty segment and \<open>.\<close> are dropped, \<open>..\<close> steps up.
\<close>

fun splitOn :: "char \<Rightarrow> string \<Rightarrow> string list" where
  "splitOn sep [] = [[]]"
| "splitOn sep (c # cs) =
     (if c = sep then [] # splitOn sep cs
      else (case splitOn sep cs of [] \<Rightarrow> [[c]] | seg # segs \<Rightarrow> (c # seg) # segs))"

definition pathJoin :: "path \<Rightarrow> string \<Rightarrow> path" where
  "pathJoin dir name =
     foldl (\<lambda>acc seg. if seg = [] \<or> seg = ''.'' then acc
                      else if seg = ''..'' then butlast acc
                      else acc @ [seg])
       dir (splitOn (CHR ''/'') name)"

definition OUTPUT_DIR :: "env \<Rightarrow> path" where
  "OUTPUT_DIR E = pathJoin (dirname E) ''output''"

definition TEMP_DIR :: "env \<Rightarrow> path" where
  "TEMP_DIR E = pathJoin (OUTPUT_DIR E) ''temp''"

definition ASSETS_DIR :: "env \<Rightarrow> path" where
  "ASSETS_DIR E = pathJoin (TEMP_DIR E) ''assets''"

text \<open>
  The calls on the file system, each with the exits the disk can cause.
  \<^item> \<open>mkdirSync(p, {recursive: true})\<close> makes the directory and its missing ancestors; it
    throws when \<open>p\<close> is a file (\<open>EEXIST\<close>) or an ancestor is one (\<open>ENOTDIR\<close>).
  \<^item> \<open>writeFileSync(p, data)\<close> sets the content of a file; it throws when \<open>p\<close> is a
    directory (\<open>EISDIR\<close>) or its parent is not one (\<open>ENOENT\<close>).
  \<^item> \<open>rmSync(p, {recursive, force})\<close> removes \<open>p\<close> and all below it; without \<open>force\<close> it
    throws when \<open>p\<close> does not exist (\<open>ENOENT\<close>), without \<open>recursive\<close> when \<open>p\<close> is a
    directory (\<open>ERR_FS_EISDIR\<close>).
\<close>

definition regularFile :: "node option \<Rightarrow> bool" where
  "regularFile n = (case n of None \<Rightarrow> False | Some Dir \<Rightarrow> False | Some other \<Rightarrow> True)"

definition mkdirSync :: "path \<Rightarrow> disk \<Rightarrow> error + disk" where
  "mkdirSync p d =
     (if regularFile (d p) then Inl (SystemError ''EEXIST'')
      else if list_ex (\<lambda>q. regularFile (d q)) (prefixes p) then Inl (SystemError ''ENOTDIR'')
      else Inr (\<lambda>q. if prefix q p \<and> d q = None then Some Dir else d q))"

definition writeFileSync :: "path \<Rightarrow> string \<Rightarrow> disk \<Rightarrow> error + disk" where
  "writeFileSync p data d =
     (if d p = Some Dir then Inl (SystemError ''EISDIR'')
      else if d (butlast p) \<noteq> Some Dir then Inl (SystemError ''ENOENT'')
      else Inr (d(p \<mapsto> File data)))"

definition rmSync :: "path \<Rightarrow> bool \<Rightarrow> bool \<Rightarrow> disk \<Rightarrow> error + disk" where
  "rmSync p recursive force d =
     (if d p = None \<and> \<not> force then Inl (SystemError ''ENOENT'')
      else if d p = Some Dir \<and> \<not> recursive then Inl (SystemError ''ERR_FS_EISDIR'')
      else Inr (\<lambda>q. if prefix p q then None else d q))"

text \<open>
  AdmZip: \<open>addLocalFile(localPath, zipPath)\<close> reads the file from the disk and adds it
  under its base name, inside the folder \<open>zipPath\<close> when one is given; it throws when
  there is no such file. \<open>writeZip(target)\<close> writes the archive; it does not when the
  target is a directory or its folder is not one, which is an error here.
\<close>

definition addLocalFile ::
  "disk \<Rightarrow> path \<Rightarrow> string option \<Rightarrow> (string \<times> string) list \<Rightarrow> error + (string \<times> string) list" where
  "addLocalFile d localPath zipPath entries =
     (case d localPath of
        Some (File data) \<Rightarrow>
          Inr (entries @
            [((case zipPath of None \<Rightarrow> [] | Some folder \<Rightarrow> folder @ ''/'') @ last localPath, data)])
      | _ \<Rightarrow> Inl (Error ''ADM-ZIP: File not found''))"

definition writeZip :: "path \<Rightarrow> (string \<times> string) list \<Rightarrow> disk \<Rightarrow> error + disk" where
  "writeZip p entries d =
     (if d p = Some Dir \<or> d (butlast p) \<noteq> Some Dir then Inl (Error ''ADM-ZIP: Failed to write zip'')
      else Inr (d(p \<mapsto> Archive entries)))"

definition saveFiles ::
  "env \<Rightarrow> string \<Rightarrow> string \<Rightarrow> string \<Rightarrow> string \<Rightarrow> bool \<Rightarrow> world \<Rightarrow> (error + unit) \<times> world" where
  "saveFiles E fileName data yamlContent technicalName noZipFlag w =
     (case mkdirSync (ASSETS_DIR E) (disk w) of
        Inl e \<Rightarrow> (Inl e, w)
      | Inr d1 \<Rightarrow>
          let filePath = pathJoin (ASSETS_DIR E) fileName;
              yamlPath = pathJoin (TEMP_DIR E) ''client-extension.yaml''
          in (case writeFileSync filePath data d1 of
                Inl e \<Rightarrow> (Inl e, w\<lparr>disk := d1\<rparr>)
              | Inr d2 \<Rightarrow>
                  (case writeFileSync yamlPath yamlContent d2 of
                     Inl e \<Rightarrow> (Inl e, w\<lparr>disk := d2\<rparr>)
                   | Inr d3 \<Rightarrow>
                       let zipPath = pathJoin (OUTPUT_DIR E) (technicalName @ ''.zip'')
                       in if \<not> noZipFlag then
                            (case addLocalFile d3 filePath (Some ''assets'') [] of
                               Inl e \<Rightarrow> (Inl e, w\<lparr>disk := d3\<rparr>)
                             | Inr zip1 \<Rightarrow>
                                 (case addLocalFile d3 yamlPath None zip1 of
                                    Inl e \<Rightarrow> (Inl e, w\<lparr>disk := d3\<rparr>)
                                  | Inr zip2 \<Rightarrow>
                                      (case writeZip zipPath zip2 d3 of
                                         Inl e \<Rightarrow> (Inl e, w\<lparr>disk := d3\<rparr>)
                                       | Inr d4 \<Rightarrow>
                                           (case rmSync (TEMP_DIR E) True True d4 of
                                              Inl e \<Rightarrow>
                                                (Inl e, say (Log (ZipCreated zipPath)) (w\<lparr>disk := d4\<rparr>))
                                            | Inr d5 \<Rightarrow>
                                                (Inr (),
                                                 say (Log (ZipCreated zipPath)) (w\<lparr>disk := d5\<rparr>))))))
                          else
                            (Inr (),
                             say (Log OverwriteNote)
                               (say (Log (SavedWithoutZip (TEMP_DIR E))) (w\<lparr>disk := d3\<rparr>))))))"

subsection \<open>runOnce and the entry point\<close>

definition defaultName :: "mode \<Rightarrow> string" where
  "defaultName currentMode =
     (if currentMode = Css then ''Liferay CSS Client Extension'' else ''Liferay JS Client Extension'')"

definition runOnce ::
  "env \<Rightarrow> string \<Rightarrow> mode \<Rightarrow> string option \<Rightarrow> world \<Rightarrow> unit completion \<times> world" where
  "runOnce E targetUrl currentMode sharedVisibleName w =
     (case fetchPage E targetUrl (say (Log (Fetching targetUrl currentMode)) w) of
        (Threw e, w1) \<Rightarrow> (Threw e, w1)
      | (Hangs, w1) \<Rightarrow> (Hangs, w1)
      | (Returned html, w1) \<Rightarrow>
          (case parseResources E html targetUrl currentMode of
             Inl e \<Rightarrow> (Threw e, w1)
           | Inr found \<Rightarrow>
               if length found = 0 then (Returned (), say (Log (NoResourcesFound currentMode)) w1)
               else
                 (case promptSelection E found currentMode (includeAll E) w1 of
                    (Threw e, w2) \<Rightarrow> (Threw e, w2)
                  | (Hangs, w2) \<Rightarrow> (Hangs, w2)
                  | (Returned selected, w2) \<Rightarrow>
                      if length selected = 0 then (Returned (), w2)
                      else
                        let asking = \<not> truthy sharedVisibleName;
                            visibleName =
                              (if asking then inputPrompt E currentMode
                               else (case sharedVisibleName of Some n \<Rightarrow> n | None \<Rightarrow> []));
                            w3 = (if asking then w2\<lparr>asked := asked w2 @ [currentMode]\<rparr> else w2);
                            technicalName = slugify visibleName (modeString currentMode);
                            fileName = modeFileName currentMode;
                            w4 = say (Log (SelectedBlocks currentMode (length selected))) w3
                        in (case downloadResources E (arrival E currentMode) selected w4 of
                              (Threw e, w5) \<Rightarrow> (Threw e, w5)
                            | (Hangs, w5) \<Rightarrow> (Hangs, w5)
                            | (Returned combined, w5) \<Rightarrow>
                                (case saveFiles E fileName combined
                                        (generateYaml E technicalName visibleName currentMode fileName)
                                        technicalName (noZip E) w5 of
                                   (Inl e, w6) \<Rightarrow> (Threw e, w6)
                                 | (Inr u, w6) \<Rightarrow> (Returned (), w6))))))"

text \<open>
  The script: the usage check, then the async entry point. \<open>process.exit(1)\<close> is
  \<open>Threw (Exit 1)\<close>; a rejection of \<open>runOnce\<close> is not caught and ends the entry point.
\<close>

definition main ::
  "env \<Rightarrow> string option \<Rightarrow> string option \<Rightarrow> string option \<Rightarrow> world \<Rightarrow> unit completion \<times> world" where
  "main E targetUrl modeArg sharedName w =
     (if \<not> truthy targetUrl then (Threw (Exit 1), say (ConsoleError Usage) w)
      else
        let u = (case targetUrl of Some t \<Rightarrow> t | None \<Rightarrow> [])
        in if \<not> truthy modeArg then
             (case runOnce E u Css sharedName w of
                (Returned r, w1) \<Rightarrow> runOnce E u Js sharedName w1
              | (other, w1) \<Rightarrow> (other, w1))
           else if modeArg = Some ''css'' then runOnce E u Css sharedName w
           else if modeArg = Some ''js'' then runOnce E u Js sharedName w
           else (Threw (Exit 1), say (ConsoleError InvalidMode) w))"

section \<open>The specification's wording, as definitions\<close>

subsection \<open>The slug rule\<close>

text \<open>
  Collapsing whitespace runs to single hyphens, read character by character: a
  whitespace character becomes a hyphen when it starts a run and disappears when it
  continues one. The flag says whether the previous character was whitespace.
\<close>

fun collapseRuns :: "bool \<Rightarrow> string \<Rightarrow> string" where
  "collapseRuns prevWs [] = []"
| "collapseRuns prevWs (c # cs) =
     (if isWhiteSpace c then (if prevWs then [] else ''-'') @ collapseRuns True cs
      else c # collapseRuns False cs)"

text \<open>
  The rule with every run collapsed, and the rule as worded, with only the internal
  runs collapsed: the leading and the trailing run stay as they are, and the strip step
  removes them with the other characters outside \<open>[a-z0-9-]\<close>.
\<close>

definition slugSpecEveryRun :: "string \<Rightarrow> mode \<Rightarrow> string" where
  "slugSpecEveryRun visibleName cls =
     filter isSlugChar (collapseRuns False (map lowerChar visibleName)) @ ''-'' @ modeString cls"

definition collapseInternalRuns :: "string \<Rightarrow> string" where
  "collapseInternalRuns s =
     (let lead = takeWhile isWhiteSpace s;
          rest = dropWhile isWhiteSpace s;
          trail = rev (takeWhile isWhiteSpace (rev rest));
          core = rev (dropWhile isWhiteSpace (rev rest))
      in lead @ collapseRuns False core @ trail)"

definition slugSpecInternalRuns :: "string \<Rightarrow> mode \<Rightarrow> string" where
  "slugSpecInternalRuns visibleName cls =
     filter isSlugChar (collapseInternalRuns (map lowerChar visibleName)) @ ''-'' @ modeString cls"

subsection \<open>Discovery\<close>

text \<open>
  A reference without its label: the locator of an external one, the raw content of an
  inline one.
\<close>

datatype reference = ExternalRef string | InlineRef string

fun referenceOf :: "resource \<Rightarrow> reference" where
  "referenceOf (External l u) = ExternalRef u"
| "referenceOf (Inline l c) = InlineRef c"

text \<open>The locator attribute of a class: \<open>href\<close> for styles, \<open>src\<close> for scripts.\<close>

fun locator :: "mode \<Rightarrow> string" where
  "locator Css = ''href''"
| "locator Js = ''src''"

text \<open>
  What one matched element contributes. As worded: a \<open>link\<close>, or a \<open>script\<close> that has a
  \<open>src\<close> attribute, is an external element, emitted with its resolved locator and
  skipped when the locator is missing or empty; a \<open>script\<close> without \<open>src\<close> is inline and
  skipped when blank; a \<open>style\<close> is inline and always emitted.
\<close>

definition emitsAsWorded :: "env \<Rightarrow> string \<Rightarrow> mode \<Rightarrow> element \<Rightarrow> reference option" where
  "emitsAsWorded E baseUrl cls el =
     (if (cls = Css \<and> tagName el = ''link'') \<or> (cls = Js \<and> attr el ''src'' \<noteq> None) then
        (case attr el (locator cls) of
           None \<Rightarrow> None
         | Some h \<Rightarrow> if h = [] then None else map_option ExternalRef (resolveURL E h baseUrl))
      else if cls = Js \<and> trim (innerHtml el) = [] then None
      else Some (InlineRef (innerHtml el)))"

text \<open>
  The same with one change: a \<open>script\<close> whose \<open>src\<close> is empty counts as a \<open>script\<close>
  without \<open>src\<close>.
\<close>

definition emits :: "env \<Rightarrow> string \<Rightarrow> mode \<Rightarrow> element \<Rightarrow> reference option" where
  "emits E baseUrl cls el =
     (if (cls = Css \<and> tagName el = ''link'') \<or> (cls = Js \<and> truthy (attr el ''src'')) then
        (case attr el (locator cls) of
           None \<Rightarrow> None
         | Some h \<Rightarrow> if h = [] then None else map_option ExternalRef (resolveURL E h baseUrl))
      else if cls = Js \<and> trim (innerHtml el) = [] then None
      else Some (InlineRef (innerHtml el)))"

subsection \<open>Resolution and merge\<close>

text \<open>
  The resolved content of one reference: for an inline one its raw content, succeeded;
  for an external one the body of the response, succeeded, or the empty text, not
  succeeded, when the fetch fails.
\<close>

record resolvedContent =
  sourceLabel :: string
  resolvedText :: string
  succeeded :: bool

fun resolveContent :: "env \<Rightarrow> resource \<Rightarrow> resolvedContent" where
  "resolveContent E (Inline l c) = \<lparr>sourceLabel = l, resolvedText = c, succeeded = True\<rparr>"
| "resolveContent E (External l u) =
     (case axiosGet E u of
        Inr body \<Rightarrow> \<lparr>sourceLabel = l, resolvedText = body, succeeded = True\<rparr>
      | Inl msg \<Rightarrow> \<lparr>sourceLabel = l, resolvedText = [], succeeded = False\<rparr>)"

text \<open>
  The merge step: an entry that succeeded is the comment header with its label, a line
  feed and its text; one that failed is empty. Two entries are set apart by a blank
  line, that is by two line feeds.
\<close>

definition mergeEntry :: "resolvedContent \<Rightarrow> string" where
  "mergeEntry rc =
     (if succeeded rc then ''/* '' @ sourceLabel rc @ '' */'' @ [CHR 0x0A] @ resolvedText rc else [])"

definition mergeStep :: "resolvedContent list \<Rightarrow> string" where
  "mergeStep rcs = join [CHR 0x0A, CHR 0x0A] (map mergeEntry rcs)"

text \<open>
  The fragment the code makes of one reference: as above, but the header of an external
  one is written with its locator.
\<close>

fun fragment :: "env \<Rightarrow> resource \<Rightarrow> string" where
  "fragment E (Inline l c) = ''/* '' @ l @ '' */'' @ [CHR 0x0A] @ c"
| "fragment E (External l u) =
     (case axiosGet E u of Inr body \<Rightarrow> ''/* '' @ u @ '' */'' @ [CHR 0x0A] @ body | Inl msg \<Rightarrow> [])"

definition merged :: "env \<Rightarrow> resource list \<Rightarrow> string" where
  "merged E rs = join [CHR 0x0A, CHR 0x0A] (map (fragment E) rs)"

text \<open>A reference as discovery makes it: the label of an external one is its locator.\<close>

fun discovered :: "resource \<Rightarrow> bool" where
  "discovered (External l u) = (l = u)"
| "discovered (Inline l c) = True"

text \<open>
  The disk lets \<open>saveFiles\<close> stage its two files: no file stands where the staging
  directories go, and no directory where the two files go. And a name that
  \<open>path.join\<close> appends as it is: one segment, no separator.
\<close>

definition stageable :: "env \<Rightarrow> string \<Rightarrow> disk \<Rightarrow> bool" where
  "stageable E fileName d =
     (list_all (\<lambda>q. \<not> regularFile (d q)) (prefixes (ASSETS_DIR E))
      \<and> d (ASSETS_DIR E @ [fileName]) \<noteq> Some Dir
      \<and> d (TEMP_DIR E @ [''client-extension.yaml'']) \<noteq> Some Dir)"

definition plainName :: "string \<Rightarrow> bool" where
  "plainName name = (CHR ''/'' \<notin> set name \<and> name \<noteq> [] \<and> name \<noteq> ''.'' \<and> name \<noteq> ''..'')"

text \<open>The disk after the staging: the directories made, the two files written.\<close>

definition staged :: "env \<Rightarrow> string \<Rightarrow> string \<Rightarrow> string \<Rightarrow> disk \<Rightarrow> disk" where
  "staged E fileName data yamlContent d =
     (\<lambda>q. if q = TEMP_DIR E @ [''client-extension.yaml''] then Some (File yamlContent)
          else if q = ASSETS_DIR E @ [fileName] then Some (File data)
          else if prefix q (ASSETS_DIR E) \<and> d q = None then Some Dir
          else d q)"

text \<open>
  What holds of the promises and the console while the responses arrive: each promise
  is fulfilled with the fragment of its reference, or still waits for the response to
  an external one; and the console holds the warning of every failed fetch whose
  response has arrived.
\<close>

definition settling :: "env \<Rightarrow> resource list \<Rightarrow> promise list \<times> world \<Rightarrow> bool" where
  "settling E rs st =
     (case st of (ps, w) \<Rightarrow>
        length ps = length rs
        \<and> (\<forall>j<length rs.
              (ps ! j = Fulfilled (fragment E (rs ! j))
               \<or> (ps ! j = Waiting \<and> (\<exists>l u. rs ! j = External l u)))
              \<and> (\<forall>l u msg. ps ! j \<noteq> Waiting \<and> rs ! j = External l u \<and> axiosGet E u = Inl msg \<longrightarrow>
                    Warn (FailedToLoad u msg) \<in> set (console w))))"

section \<open>A page to run the program on\<close>

text \<open>
  The page at \<open>https://x.test/\<close>: a stylesheet that loads, a \<open>style\<close> element, a \<open>link\<close>
  without \<open>href\<close>, a stylesheet that answers 404; a script that loads, an inline script
  and a blank one. The operator keeps every item checked, and accepts the default name;
  the prompt rejects a list without items.
\<close>

definition demoStyles :: "element list" where
  "demoStyles =
     [\<lparr>tagName = ''link'', attribs = [(''rel'', ''stylesheet''), (''href'', ''a.css'')], innerHtml = []\<rparr>,
      \<lparr>tagName = ''style'', attribs = [], innerHtml = ''body{color:red}''\<rparr>,
      \<lparr>tagName = ''link'', attribs = [(''rel'', ''stylesheet'')], innerHtml = []\<rparr>,
      \<lparr>tagName = ''link'', attribs = [(''rel'', ''stylesheet''), (''href'', ''gone.css'')], innerHtml = []\<rparr>]"

definition demoScripts :: "element list" where
  "demoScripts =
     [\<lparr>tagName = ''script'', attribs = [(''src'', ''app.js'')], innerHtml = []\<rparr>,
      \<lparr>tagName = ''script'', attribs = [], innerHtml = ''init()''\<rparr>,
      \<lparr>tagName = ''script'', attribs = [], innerHtml = '' ''\<rparr>]"

definition demoEnv :: env where
  "demoEnv =
     \<lparr>axiosGet =
        (\<lambda>u. if u = ''https://x.test/'' then Inr ''<html>''
             else if u = ''https://x.test/a.css'' then Inr ''a{}''
             else if u = ''https://x.test/app.js'' then Inr ''run()''
             else Inl ''Request failed with status code 404''),
      cheerio = (\<lambda>html sel. if sel = selector Css then demoStyles else demoScripts),
      resolveURL = (\<lambda>ref base. Some (base @ ref)),
      checkbox =
        (\<lambda>cls shown. if shown = [] then Inl (Error ''No selectable choices'')
                     else Inr (map choiceValue shown)),
      inputPrompt = defaultName,
      yamlStringify = (\<lambda>doc. ''assemble: ...''),
      arrival = (\<lambda>cls. []),
      dirname = [''app''],
      includeAll = True,
      noZip = False\<rparr>"

text \<open>A page whose only script has an empty \<open>src\<close> and a body.\<close>

definition bootScript :: element where
  "bootScript = \<lparr>tagName = ''script'', attribs = [(''src'', [])], innerHtml = ''boot()''\<rparr>"

definition bootEnv :: env where
  "bootEnv = demoEnv\<lparr>cheerio := (\<lambda>html sel. [bootScript])\<rparr>"

text \<open>An operator whose prompt reports the checked items last to first.\<close>

definition reverseEnv :: env where
  "reverseEnv =
     demoEnv\<lparr>includeAll := False, checkbox := (\<lambda>cls shown. Inr (rev (map choiceValue shown)))\<rparr>"

text \<open>A page without any matching element, and an operator who unchecks every item.\<close>

definition blankEnv :: env where
  "blankEnv = demoEnv\<lparr>cheerio := (\<lambda>html sel. [])\<rparr>"

definition declineEnv :: env where
  "declineEnv = demoEnv\<lparr>includeAll := False, checkbox := (\<lambda>cls shown. Inr [])\<rparr>"

definition emptyWorld :: world where
  "emptyWorld = \<lparr>console = [], requests = [], prompted = [], asked = [], disk = Map.empty\<rparr>"

text \<open>A disk on which a file stands in the place of the output directory.\<close>

definition blockedWorld :: world where
  "blockedWorld = emptyWorld\<lparr>disk := [[''app'', ''output''] \<mapsto> File ''notes'']\<rparr>"

section \<open>slugify\<close>

lemma collapseRuns_True: "collapseRuns True s = collapseRuns False (dropWhile isWhiteSpace s)"
  by (induction s) simp_all

lemma replaceWhitespaceRuns_collapseRuns: "replaceWhitespaceRuns s = collapseRuns False s"
  by (induction s rule: replaceWhitespaceRuns.induct) (simp_all add: collapseRuns_True)

lemma code_char_of: "n < 256 \<Longrightarrow> code (char_of n) = n"
  by (simp add: code_def)

lemma isWhiteSpace_lowerChar: "isWhiteSpace (lowerChar c) = isWhiteSpace c"
  by (auto simp: isWhiteSpace_def lowerChar_def code_char_of)

lemma collapseRuns_append:
  "collapseRuns f (a @ b) =
     collapseRuns f a @ collapseRuns (if a = [] then f else isWhiteSpace (last a)) b"
  by (induction a arbitrary: f) auto

lemma collapseRuns_whitespace:
  "\<forall>c\<in>set r. isWhiteSpace c \<Longrightarrow> collapseRuns True r = []"
  by (induction r) simp_all

lemma collapseRuns_run:
  assumes "r \<noteq> []" and "\<forall>c\<in>set r. isWhiteSpace c"
  shows "collapseRuns False r = ''-''"
proof (cases r)
  case Nil
  with assms show ?thesis by simp
next
  case (Cons c cs)
  with assms have "isWhiteSpace c" and "\<forall>x\<in>set cs. isWhiteSpace x" by simp_all
  with Cons show ?thesis by (simp add: collapseRuns_whitespace)
qed

lemma collapseRuns_flag_irrelevant:
  "b = [] \<or> \<not> isWhiteSpace (hd b) \<Longrightarrow> collapseRuns f b = collapseRuns False b"
  by (cases b) auto

lemma replaceWhitespaceRuns_around_run:
  assumes "r \<noteq> []" and "\<forall>c\<in>set r. isWhiteSpace c"
    and "a = [] \<or> \<not> isWhiteSpace (last a)" and "b = [] \<or> \<not> isWhiteSpace (hd b)"
  shows "replaceWhitespaceRuns (a @ r @ b) =
           replaceWhitespaceRuns a @ ''-'' @ replaceWhitespaceRuns b"
proof -
  have first: "collapseRuns (if a = [] then False else isWhiteSpace (last a)) r = ''-''"
    using assms(1-3) by (auto simp: collapseRuns_run)
  have "collapseRuns False (a @ r @ b) =
          collapseRuns False a @ ''-'' @ collapseRuns (isWhiteSpace (last r)) b"
    using assms(1) first by (simp add: collapseRuns_append)
  also have "collapseRuns (isWhiteSpace (last r)) b = collapseRuns False b"
    using assms(4) by (rule collapseRuns_flag_irrelevant)
  finally show ?thesis by (simp add: replaceWhitespaceRuns_collapseRuns)
qed

lemma replaceWhitespaceRuns_no_whitespace:
  "\<forall>c\<in>set s. \<not> isWhiteSpace c \<Longrightarrow> replaceWhitespaceRuns s = s"
  by (induction s) simp_all

text \<open>
  C1, as amended. The technical identifier is the slug obtained by lowercasing the
  visible name, replacing every whitespace run, the leading and the trailing one
  included, by a single hyphen, deleting the characters outside \<open>[a-z0-9-]\<close> and
  appending \<open>-css\<close> or \<open>-js\<close>; equal inputs give equal identifiers; and
  \<open>My Cool Site!\<close> with the style class gives \<open>my-cool-site-css\<close>.
\<close>

theorem slugify_collapses_every_run:
  "slugify visibleName (modeString cls) = slugSpecEveryRun visibleName cls
   \<and> (visibleName = visibleName' \<and> cls = cls' \<longrightarrow>
        slugify visibleName (modeString cls) = slugify visibleName' (modeString cls'))
   \<and> slugify ''My Cool Site!'' (modeString Css) = ''my-cool-site-css''"
proof (intro conjI impI)
  show "slugify visibleName (modeString cls) = slugSpecEveryRun visibleName cls"
    by (simp add: slugify_def slugSpecEveryRun_def stripDisallowed_def toLowerCase_def
        replaceWhitespaceRuns_collapseRuns)
  show "slugify ''My Cool Site!'' (modeString Css) = ''my-cool-site-css''"
    by code_simp
  assume "visibleName = visibleName' \<and> cls = cls'"
  then show "slugify visibleName (modeString cls) = slugify visibleName' (modeString cls')"
    by simp
qed

theorem slugify_collapses_every_run_witness:
  "(''Shop  UI'' = ''Shop  UI'' \<and> Js = Js)
   \<and> slugify ''Shop  UI'' (modeString Js) = slugSpecEveryRun ''Shop  UI'' Js
   \<and> slugSpecEveryRun ''Shop  UI'' Js = ''shop-ui-js''"
proof -
  have "slugSpecEveryRun ''Shop  UI'' Js = ''shop-ui-js''"
    by code_simp
  then show ?thesis
    using slugify_collapses_every_run [of "''Shop  UI''" Js "''Shop  UI''" Js] by simp
qed

theorem slugify_internal_runs_counterexample:
  "slugify '' My Site '' (modeString Css) = ''-my-site--css''
   \<and> slugSpecInternalRuns '' My Site '' Css = ''my-site-css''
   \<and> slugify '' My Site '' (modeString Css) \<noteq> slugSpecInternalRuns '' My Site '' Css"
proof -
  have code: "slugify '' My Site '' (modeString Css) = ''-my-site--css''"
    by code_simp
  have words: "slugSpecInternalRuns '' My Site '' Css = ''my-site-css''"
    by code_simp
  from code words show ?thesis
    by simp
qed

text \<open>
  C10. \<open>slugify\<close> replaces every maximal whitespace run by one hyphen, the leading and
  the trailing run too, and strips afterwards: a name that starts or ends with
  whitespace gives an identifier whose body starts or ends with a hyphen
  (\<open> My Site \<close> with the style class gives \<open>-my-site--css\<close>), and a name made only of
  characters that are stripped gives the bare \<open>-css\<close> or \<open>-js\<close>.
\<close>

theorem slugify_leading_trailing_runs:
  "(r \<noteq> [] \<and> (\<forall>c\<in>set r. isWhiteSpace c) \<and> (a = [] \<or> \<not> isWhiteSpace (last a))
      \<and> (b = [] \<or> \<not> isWhiteSpace (hd b)) \<longrightarrow>
      slugify (a @ r @ b) sfx =
        stripDisallowed (replaceWhitespaceRuns (toLowerCase a)) @ ''-'' @ slugify b sfx)
   \<and> (r \<noteq> [] \<and> (\<forall>c\<in>set r. isWhiteSpace c) \<and> (b = [] \<or> \<not> isWhiteSpace (hd b)) \<longrightarrow>
        slugify (r @ b) sfx = ''-'' @ slugify b sfx)
   \<and> (r \<noteq> [] \<and> (\<forall>c\<in>set r. isWhiteSpace c) \<and> (a = [] \<or> \<not> isWhiteSpace (last a)) \<longrightarrow>
        slugify (a @ r) sfx =
          stripDisallowed (replaceWhitespaceRuns (toLowerCase a)) @ ''--'' @ sfx)
   \<and> slugify '' My Site '' (modeString Css) = ''-my-site--css''
   \<and> ((\<forall>c\<in>set visibleName. \<not> isWhiteSpace c \<and> \<not> isSlugChar (lowerChar c)) \<longrightarrow>
        slugify visibleName (modeString cls) = ''-'' @ modeString cls)"
proof -
  have general: "slugify (a @ r @ b) sfx =
      stripDisallowed (replaceWhitespaceRuns (toLowerCase a)) @ ''-'' @ slugify b sfx"
    if "r \<noteq> []" "\<forall>c\<in>set r. isWhiteSpace c" "a = [] \<or> \<not> isWhiteSpace (last a)"
      "b = [] \<or> \<not> isWhiteSpace (hd b)" for a r b
  proof -
    have "replaceWhitespaceRuns (map lowerChar a @ map lowerChar r @ map lowerChar b) =
        replaceWhitespaceRuns (map lowerChar a) @ ''-'' @ replaceWhitespaceRuns (map lowerChar b)"
      using that
      by (intro replaceWhitespaceRuns_around_run)
        (auto simp: isWhiteSpace_lowerChar last_map hd_map)
    then show ?thesis
      by (simp add: slugify_def toLowerCase_def stripDisallowed_def isSlugChar_def)
  qed
  have lead: "slugify (r @ b) sfx = ''-'' @ slugify b sfx"
    if "r \<noteq> []" "\<forall>c\<in>set r. isWhiteSpace c" "b = [] \<or> \<not> isWhiteSpace (hd b)" for r b
    using general [of r "[]" b] that
    by (simp add: toLowerCase_def stripDisallowed_def)
  have trail: "slugify (a @ r) sfx =
      stripDisallowed (replaceWhitespaceRuns (toLowerCase a)) @ ''--'' @ sfx"
    if "r \<noteq> []" "\<forall>c\<in>set r. isWhiteSpace c" "a = [] \<or> \<not> isWhiteSpace (last a)" for a r
    using general [of r a "[]"] that
    by (simp add: slugify_def toLowerCase_def stripDisallowed_def)
  have example: "slugify '' My Site '' (modeString Css) = ''-my-site--css''"
    by code_simp
  have stripped: "slugify visibleName (modeString cls) = ''-'' @ modeString cls"
    if "\<forall>c\<in>set visibleName. \<not> isWhiteSpace c \<and> \<not> isSlugChar (lowerChar c)"
  proof -
    have "replaceWhitespaceRuns (map lowerChar visibleName) = map lowerChar visibleName"
      using that by (intro replaceWhitespaceRuns_no_whitespace) (simp add: isWhiteSpace_lowerChar)
    moreover have "filter isSlugChar (map lowerChar visibleName) = []"
      using that by (simp add: filter_empty_conv)
    ultimately show ?thesis
      by (simp add: slugify_def toLowerCase_def stripDisallowed_def)
  qed
  show ?thesis
  proof (intro conjI impI)
    assume "r \<noteq> [] \<and> (\<forall>c\<in>set r. isWhiteSpace c) \<and> (a = [] \<or> \<not> isWhiteSpace (last a))
      \<and> (b = [] \<or> \<not> isWhiteSpace (hd b))"
    then show "slugify (a @ r @ b) sfx =
        stripDisallowed (replaceWhitespaceRuns (toLowerCase a)) @ ''-'' @ slugify b sfx"
      by (intro general) simp_all
  next
    assume "r \<noteq> [] \<and> (\<forall>c\<in>set r. isWhiteSpace c) \<and> (b = [] \<or> \<not> isWhiteSpace (hd b))"
    then show "slugify (r @ b) sfx = ''-'' @ slugify b sfx"
      by (intro lead) simp_all
  next
    assume "r \<noteq> [] \<and> (\<forall>c\<in>set r. isWhiteSpace c) \<and> (a = [] \<or> \<not> isWhiteSpace (last a))"
    then show "slugify (a @ r) sfx =
        stripDisallowed (replaceWhitespaceRuns (toLowerCase a)) @ ''--'' @ sfx"
      by (intro trail) simp_all
  next
    show "slugify '' My Site '' (modeString Css) = ''-my-site--css''"
      by (rule example)
  next
    assume "\<forall>c\<in>set visibleName. \<not> isWhiteSpace c \<and> \<not> isSlugChar (lowerChar c)"
    then show "slugify visibleName (modeString cls) = ''-'' @ modeString cls"
      by (rule stripped)
  qed
qed

theorem slugify_leading_trailing_runs_witness:
  "slugify (''Ab'' @ ''  '' @ ''c'') ''js'' = ''ab-c-js''
   \<and> slugify (''  '' @ ''c'') ''js'' = ''-c-js''
   \<and> slugify (''Ab'' @ ''  '') ''js'' = ''ab--js''
   \<and> slugify ''?!'' (modeString Js) = ''-js''"
proof -
  have h1: "''  '' \<noteq> [] \<and> (\<forall>c\<in>set ''  ''. isWhiteSpace c)
      \<and> (''Ab'' = [] \<or> \<not> isWhiteSpace (last ''Ab'')) \<and> (''c'' = [] \<or> \<not> isWhiteSpace (hd ''c''))"
    by code_simp
  have h2: "\<forall>c\<in>set ''?!''. \<not> isWhiteSpace c \<and> \<not> isSlugChar (lowerChar c)"
    by code_simp
  have v1: "stripDisallowed (replaceWhitespaceRuns (toLowerCase ''Ab'')) = ''ab''"
    by code_simp
  have v2: "slugify ''c'' ''js'' = ''c-js''"
    by code_simp
  show ?thesis
    using slugify_leading_trailing_runs [of "''  ''" "''Ab''" "''c''" "''js''" "''?!''" Js] h1 h2 v1 v2
    by simp
qed

section \<open>parseResources\<close>

lemma callback_reference:
  "callback cls E baseUrl (found, n) el = Inr (found', n') \<Longrightarrow>
     map referenceOf found' =
       map referenceOf found @ (case emits E baseUrl cls el of None \<Rightarrow> [] | Some r \<Rightarrow> [r])"
  by (cases cls)
    (auto simp: cssCallback_def jsCallback_def emits_def Let_def
      split: if_splits option.splits)

lemma each_reference:
  "each (callback cls E baseUrl) (found, n) els = Inr (found', n') \<Longrightarrow>
     map referenceOf found' = map referenceOf found @ List.map_filter (emits E baseUrl cls) els"
proof (induction els arbitrary: found n)
  case Nil
  then show ?case by (simp add: List.map_filter_simps)
next
  case (Cons el els)
  from Cons.prems obtain found1 n1 where
    step: "callback cls E baseUrl (found, n) el = Inr (found1, n1)"
    and rest: "each (callback cls E baseUrl) (found1, n1) els = Inr (found', n')"
    by (auto split: sum.splits)
  from Cons.IH [OF rest] callback_reference [OF step] show ?case
    by (simp add: List.map_filter_simps split: option.splits)
qed

lemma callback_no_error:
  "(\<And>h. attr el (locator cls) = Some h \<Longrightarrow> h \<noteq> [] \<Longrightarrow> resolveURL E h baseUrl \<noteq> None) \<Longrightarrow>
     \<exists>st'. callback cls E baseUrl st el = Inr st'"
  by (cases cls; cases st; cases "attr el (locator cls)")
    (fastforce simp: cssCallback_def jsCallback_def Let_def split: option.splits)+

lemma each_no_error:
  "(\<And>el h. el \<in> set els \<Longrightarrow> attr el (locator cls) = Some h \<Longrightarrow> h \<noteq> [] \<Longrightarrow>
       resolveURL E h baseUrl \<noteq> None) \<Longrightarrow>
     \<exists>st'. each (callback cls E baseUrl) st els = Inr st'"
proof (induction els arbitrary: st)
  case Nil
  then show ?case by simp
next
  case (Cons el els)
  have "\<exists>st1. callback cls E baseUrl st el = Inr st1"
    by (rule callback_no_error) (rule Cons.prems, simp_all)
  then obtain st1 where "callback cls E baseUrl st el = Inr st1" ..
  moreover have "\<exists>st'. each (callback cls E baseUrl) st1 els = Inr st'"
    by (rule Cons.IH) (rule Cons.prems, simp_all)
  ultimately show ?case by simp
qed

text \<open>
  C3, as amended. For every markup, base URL and class, the references come in the
  document order of the matched elements, each element giving one reference or none;
  a \<open>link\<close> whose \<open>href\<close> is missing or empty is skipped without error; a \<open>script\<close> whose
  \<open>src\<close> is missing or empty is an inline script, skipped when its content is blank after
  trimming and emitted otherwise; a \<open>style\<close> is always emitted, blank or not; the only
  error is a locator that \<open>new URL\<close> rejects; and no match gives the empty sequence.
\<close>

theorem parseResources_document_order:
  "(parseResources E html baseUrl cls = Inr found \<longrightarrow>
      map referenceOf found =
        List.map_filter (emits E baseUrl cls) (cheerio E html (selector cls)))
   \<and> ((\<forall>x\<in>set (cheerio E html (selector cls)). \<forall>h.
          attr x (locator cls) = Some h \<and> h \<noteq> [] \<longrightarrow> resolveURL E h baseUrl \<noteq> None) \<longrightarrow>
        (\<exists>refs. parseResources E html baseUrl cls = Inr refs))
   \<and> (tagName el = ''link'' \<and> \<not> truthy (attr el ''href'') \<longrightarrow> cssCallback E baseUrl st el = Inr st)
   \<and> (\<not> truthy (attr el ''src'') \<longrightarrow>
        jsCallback E baseUrl (found0, n) el =
          (if trim (innerHtml el) = [] then Inr (found0, n)
           else Inr (found0 @ [Inline (''<script> inline #'' @ natToString n) (innerHtml el)], n + 1)))
   \<and> (tagName el \<noteq> ''link'' \<longrightarrow>
        cssCallback E baseUrl (found0, n) el =
          Inr (found0 @ [Inline (''<style> inline #'' @ natToString n) (innerHtml el)], n + 1))
   \<and> (cheerio E html (selector cls) = [] \<longrightarrow> parseResources E html baseUrl cls = Inr [])"
proof (intro conjI impI)
  assume "parseResources E html baseUrl cls = Inr found"
  then obtain k where
    "each (callback cls E baseUrl) ([], 1) (cheerio E html (selector cls)) = Inr (found, k)"
    by (auto simp: parseResources_def split: sum.splits)
  from each_reference [OF this]
  show "map referenceOf found =
      List.map_filter (emits E baseUrl cls) (cheerio E html (selector cls))"
    by simp
next
  assume ok: "\<forall>x\<in>set (cheerio E html (selector cls)). \<forall>h.
      attr x (locator cls) = Some h \<and> h \<noteq> [] \<longrightarrow> resolveURL E h baseUrl \<noteq> None"
  have "\<exists>st'. each (callback cls E baseUrl) ([], 1) (cheerio E html (selector cls)) = Inr st'"
    by (rule each_no_error) (use ok in blast)
  then show "\<exists>refs. parseResources E html baseUrl cls = Inr refs"
    by (auto simp: parseResources_def)
next
  assume "tagName el = ''link'' \<and> \<not> truthy (attr el ''href'')"
  then show "cssCallback E baseUrl st el = Inr st"
    by (cases st) (simp add: cssCallback_def)
next
  assume "\<not> truthy (attr el ''src'')"
  then show "jsCallback E baseUrl (found0, n) el =
      (if trim (innerHtml el) = [] then Inr (found0, n)
       else Inr (found0 @ [Inline (''<script> inline #'' @ natToString n) (innerHtml el)], n + 1))"
    by (simp add: jsCallback_def)
next
  assume "tagName el \<noteq> ''link''"
  then show "cssCallback E baseUrl (found0, n) el =
      Inr (found0 @ [Inline (''<style> inline #'' @ natToString n) (innerHtml el)], n + 1)"
    by (simp add: cssCallback_def)
next
  assume "cheerio E html (selector cls) = []"
  then show "parseResources E html baseUrl cls = Inr []"
    by (simp add: parseResources_def)
qed

lemma demo_parse_css:
  "parseResources demoEnv ''<html>'' ''https://x.test/'' Css =
     Inr [External ''https://x.test/a.css'' ''https://x.test/a.css'',
          Inline ''<style> inline #1'' ''body{color:red}'',
          External ''https://x.test/gone.css'' ''https://x.test/gone.css'']"
  by code_simp

theorem parseResources_document_order_witness:
  "parseResources demoEnv ''<html>'' ''https://x.test/'' Css =
     Inr [External ''https://x.test/a.css'' ''https://x.test/a.css'',
          Inline ''<style> inline #1'' ''body{color:red}'',
          External ''https://x.test/gone.css'' ''https://x.test/gone.css'']
   \<and> List.map_filter (emits demoEnv ''https://x.test/'' Css) (cheerio demoEnv ''<html>'' (selector Css)) =
       [ExternalRef ''https://x.test/a.css'', InlineRef ''body{color:red}'',
        ExternalRef ''https://x.test/gone.css'']"
  using parseResources_document_order [of demoEnv "''<html>''" "''https://x.test/''" Css
      "[External ''https://x.test/a.css'' ''https://x.test/a.css'',
        Inline ''<style> inline #1'' ''body{color:red}'',
        External ''https://x.test/gone.css'' ''https://x.test/gone.css'']"]
    demo_parse_css
  by simp

text \<open>
  C3 as stated fails: a \<open>script\<close> with an empty \<open>src\<close> and a body is an external element
  whose locator is empty, to be skipped; \<open>parseResources\<close> emits it as an inline script.
\<close>

theorem parseResources_empty_src_counterexample:
  "attr bootScript ''src'' = Some []
   \<and> emitsAsWorded bootEnv ''https://x.test/'' Js bootScript = None
   \<and> parseResources bootEnv ''<html>'' ''https://x.test/'' Js =
       Inr [Inline ''<script> inline #1'' ''boot()'']"
  by code_simp

section \<open>generateYaml\<close>

lemma slugify_not_assemble:
  "slugify givenName ''css'' \<noteq> ''assemble''" "slugify givenName ''js'' \<noteq> ''assemble''"
proof -
  have "rev (slugify givenName ''css'') \<noteq> rev ''assemble''"
    and "rev (slugify givenName ''js'') \<noteq> rev ''assemble''"
    by (simp_all add: slugify_def)
  then show "slugify givenName ''css'' \<noteq> ''assemble''"
    and "slugify givenName ''js'' \<noteq> ''assemble''"
    by auto
qed

lemma isArrayIndex_last: "isArrayIndex k \<Longrightarrow> isDigit (last k)"
  by (auto simp: isArrayIndex_def list_all_iff)

lemma slugify_not_index:
  "\<not> isArrayIndex (slugify givenName ''css'')" "\<not> isArrayIndex (slugify givenName ''js'')"
proof -
  have "\<not> isDigit (last (slugify givenName ''css''))"
    and "\<not> isDigit (last (slugify givenName ''js''))"
    by (simp_all add: slugify_def isDigit_def code_def)
  then show "\<not> isArrayIndex (slugify givenName ''css'')"
    and "\<not> isArrayIndex (slugify givenName ''js'')"
    using isArrayIndex_last by blast+
qed

lemma manifestBase_named:
  assumes "technicalName \<noteq> ''assemble''" and "\<not> isArrayIndex technicalName"
  shows "manifestBase technicalName visibleName cls fileName =
      [(''assemble'', YSeq [YMap [(''from'', YStr ''assets''), (''into'', YStr ''static'')]]),
       (technicalName,
        YMap ([(''name'', YStr visibleName),
               (''type'', YStr (case cls of Css \<Rightarrow> ''globalCSS'' | Js \<Rightarrow> ''globalJS'')),
               (''url'', YStr fileName)]
              @ (case cls of
                   Css \<Rightarrow> []
                 | Js \<Rightarrow>
                     [(''scriptElementAttributes'',
                       YMap [(''async'', YBool True),
                             (''data-attribute'', YStr ''value''),
                             (''data-senna-track'', YStr ''permanent''),
                             (''fetchpriority'', YStr ''low'')])])))]"
proof -
  have plain: "\<not> isArrayIndex ''assemble''" "\<not> isArrayIndex ''scriptElementAttributes''"
    by (simp_all add: isArrayIndex_def isDigit_def code_def)
  show ?thesis
    using assms plain
    by (cases cls)
      (simp_all add: manifestBase_def defineProperty_def setProperty_def
        scriptElementAttributes_def)
qed

text \<open>
  C7. For every technicalId (an identifier \<open>slugify\<close> makes, of any name and class),
  visibleName, class and file name, the manifest is the serialisation of a document
  with the assemble instruction \<open>[{from: assets, into: static}]\<close> and exactly one more
  entry, under the technicalId: \<open>{name, type, url}\<close>, with the type \<open>globalCSS\<close> for the
  style class and \<open>globalJS\<close> for the script class; for the script class the entry
  carries in addition \<open>scriptElementAttributes\<close> with exactly the four fixed attributes,
  for the style class nothing more.
\<close>

theorem generateYaml_document:
  "generateYaml E (slugify givenName (modeString idClass)) visibleName cls fileName =
     yamlStringify E
       (YMap
          [(''assemble'', YSeq [YMap [(''from'', YStr ''assets''), (''into'', YStr ''static'')]]),
           (slugify givenName (modeString idClass),
            YMap ([(''name'', YStr visibleName),
                   (''type'', YStr (case cls of Css \<Rightarrow> ''globalCSS'' | Js \<Rightarrow> ''globalJS'')),
                   (''url'', YStr fileName)]
                  @ (case cls of
                       Css \<Rightarrow> []
                     | Js \<Rightarrow>
                         [(''scriptElementAttributes'',
                           YMap [(''async'', YBool True),
                                 (''data-attribute'', YStr ''value''),
                                 (''data-senna-track'', YStr ''permanent''),
                                 (''fetchpriority'', YStr ''low'')])])))])"
proof -
  have named: "slugify givenName (modeString idClass) \<noteq> ''assemble''"
    and plain: "\<not> isArrayIndex (slugify givenName (modeString idClass))"
    by (cases idClass; simp add: slugify_not_assemble slugify_not_index)+
  from manifestBase_named [OF named plain, of visibleName cls fileName]
  show ?thesis
    unfolding generateYaml_def by (simp only:)
qed

theorem generateYaml_document_witness:
  "generateYaml demoEnv ''my-cool-site-js'' ''My Cool Site!'' Js ''global.js'' =
     yamlStringify demoEnv
       (YMap
          [(''assemble'', YSeq [YMap [(''from'', YStr ''assets''), (''into'', YStr ''static'')]]),
           (''my-cool-site-js'',
            YMap [(''name'', YStr ''My Cool Site!''),
                  (''type'', YStr ''globalJS''),
                  (''url'', YStr ''global.js''),
                  (''scriptElementAttributes'',
                   YMap [(''async'', YBool True),
                         (''data-attribute'', YStr ''value''),
                         (''data-senna-track'', YStr ''permanent''),
                         (''fetchpriority'', YStr ''low'')])])])"
proof -
  have slug: "slugify ''My Cool Site!'' (modeString Js) = ''my-cool-site-js''"
    by code_simp
  from generateYaml_document [of demoEnv "''My Cool Site!''" Js "''My Cool Site!''" Js "''global.js''"]
  show ?thesis
    unfolding slug by simp
qed

section \<open>saveFiles\<close>

lemma splitOn_plain: "sep \<notin> set s \<Longrightarrow> splitOn sep s = [s]"
  by (induction s) auto

lemma pathJoin_plain: "plainName name \<Longrightarrow> pathJoin dir name = dir @ [name]"
  by (simp add: plainName_def pathJoin_def splitOn_plain)

lemma plainName_literals:
  "plainName ''output''" "plainName ''temp''" "plainName ''assets''"
  "plainName ''client-extension.yaml''" "plainName (modeFileName cls)"
  by (cases cls; simp add: plainName_def)+

lemma plainName_zip: "CHR ''/'' \<notin> set technicalName \<Longrightarrow> plainName (technicalName @ ''.zip'')"
proof -
  assume "CHR ''/'' \<notin> set technicalName"
  moreover have "rev (technicalName @ ''.zip'') \<noteq> rev ''.''"
    and "rev (technicalName @ ''.zip'') \<noteq> rev ''..''"
    by simp_all
  then have "technicalName @ ''.zip'' \<noteq> ''.''" and "technicalName @ ''.zip'' \<noteq> ''..''"
    by auto
  ultimately show ?thesis
    by (simp add: plainName_def)
qed

lemma dirs:
  "OUTPUT_DIR E = dirname E @ [''output'']"
  "TEMP_DIR E = dirname E @ [''output'', ''temp'']"
  "ASSETS_DIR E = dirname E @ [''output'', ''temp'', ''assets'']"
  by (simp_all add: OUTPUT_DIR_def TEMP_DIR_def ASSETS_DIR_def pathJoin_plain plainName_literals)

lemma zip_name_not_temp: "technicalName @ ''.zip'' \<noteq> ''temp''"
proof
  assume "technicalName @ ''.zip'' = ''temp''"
  then have "rev (technicalName @ ''.zip'') = rev ''temp''"
    by simp
  then show False
    by simp
qed

lemma not_regularFile: "\<not> regularFile n \<Longrightarrow> n = None \<or> n = Some Dir"
  by (auto simp: regularFile_def split: option.splits node.splits)

lemma stageable_prefix:
  assumes "stageable E fileName d" and "prefix q (ASSETS_DIR E)"
  shows "d q = None \<or> d q = Some Dir"
proof -
  from assms(2) have "q \<in> set (prefixes (ASSETS_DIR E))"
    by (simp add: in_set_prefixes)
  with assms(1) have "\<not> regularFile (d q)"
    by (simp add: stageable_def list_all_iff)
  then show ?thesis
    by (rule not_regularFile)
qed

lemma mkdirSync_stageable:
  assumes "stageable E fileName d"
  shows "mkdirSync (ASSETS_DIR E) d =
      Inr (\<lambda>q. if prefix q (ASSETS_DIR E) \<and> d q = None then Some Dir else d q)"
proof -
  from assms have all: "\<forall>q\<in>set (prefixes (ASSETS_DIR E)). \<not> regularFile (d q)"
    by (simp add: stageable_def list_all_iff)
  then have "\<not> regularFile (d (ASSETS_DIR E))"
    by (simp add: in_set_prefixes)
  moreover from all have "\<not> list_ex (\<lambda>q. regularFile (d q)) (prefixes (ASSETS_DIR E))"
    by (simp add: list_ex_iff)
  ultimately show ?thesis
    by (simp add: mkdirSync_def)
qed

lemma staging:
  assumes ok: "stageable E fileName d" and plain: "plainName fileName"
  shows "\<exists>d1 d2.
      mkdirSync (ASSETS_DIR E) d = Inr d1
      \<and> writeFileSync (pathJoin (ASSETS_DIR E) fileName) data d1 = Inr d2
      \<and> writeFileSync (pathJoin (TEMP_DIR E) ''client-extension.yaml'') yamlContent d2 =
          Inr (staged E fileName data yamlContent d)"
proof -
  define d1 where "d1 = (\<lambda>q. if prefix q (ASSETS_DIR E) \<and> d q = None then Some Dir else d q)"
  define filePath where "filePath = ASSETS_DIR E @ [fileName]"
  define yamlPath where "yamlPath = TEMP_DIR E @ [''client-extension.yaml'']"
  define d2 where "d2 = d1(filePath \<mapsto> File data)"
  have mk: "mkdirSync (ASSETS_DIR E) d = Inr d1"
    unfolding d1_def using ok by (rule mkdirSync_stageable)
  have isdir: "d1 q = Some Dir" if "prefix q (ASSETS_DIR E)" for q
    using stageable_prefix [OF ok that] that by (auto simp: d1_def)
  have same: "d1 q = d q" if "\<not> prefix q (ASSETS_DIR E)" for q
    using that by (simp add: d1_def)
  have file_out: "\<not> prefix filePath (ASSETS_DIR E)" and yaml_out: "\<not> prefix yamlPath (ASSETS_DIR E)"
    and differ: "yamlPath \<noteq> filePath" and temp_not_file: "TEMP_DIR E \<noteq> filePath"
    by (simp_all add: filePath_def yamlPath_def dirs)
  have file_free: "d1 filePath \<noteq> Some Dir"
    using ok same [OF file_out] by (simp add: stageable_def filePath_def)
  have parent1: "d1 (butlast filePath) = Some Dir"
    using isdir [of "ASSETS_DIR E"] by (simp add: filePath_def)
  have w1: "writeFileSync filePath data d1 = Inr d2"
    using file_free parent1 by (simp add: writeFileSync_def d2_def)
  have yaml_free: "d2 yamlPath \<noteq> Some Dir"
    using ok same [OF yaml_out] differ by (simp add: stageable_def yamlPath_def d2_def)
  have "d1 (TEMP_DIR E) = Some Dir"
    by (rule isdir) (simp add: dirs)
  then have parent2: "d2 (butlast yamlPath) = Some Dir"
    using temp_not_file by (simp add: yamlPath_def d2_def)
  have w2: "writeFileSync yamlPath yamlContent d2 = Inr (d2(yamlPath \<mapsto> File yamlContent))"
    using yaml_free parent2 by (simp add: writeFileSync_def)
  have "d2(yamlPath \<mapsto> File yamlContent) = staged E fileName data yamlContent d"
    by (rule ext) (simp add: staged_def d2_def d1_def filePath_def yamlPath_def)
  with w2 have w2': "writeFileSync yamlPath yamlContent d2 = Inr (staged E fileName data yamlContent d)"
    by simp
  have "pathJoin (ASSETS_DIR E) fileName = filePath"
    and "pathJoin (TEMP_DIR E) ''client-extension.yaml'' = yamlPath"
    by (simp_all add: pathJoin_plain plain plainName_literals filePath_def yamlPath_def)
  with mk w1 w2' show ?thesis
    by auto
qed

lemma staged_files:
  "staged E fileName data yamlContent d (ASSETS_DIR E @ [fileName]) = Some (File data)"
  "staged E fileName data yamlContent d (TEMP_DIR E @ [''client-extension.yaml'']) = Some (File yamlContent)"
  by (simp_all add: staged_def dirs)

lemma staged_other:
  "q \<noteq> ASSETS_DIR E @ [fileName] \<Longrightarrow> q \<noteq> TEMP_DIR E @ [''client-extension.yaml''] \<Longrightarrow>
     staged E fileName data yamlContent d q =
       (if prefix q (ASSETS_DIR E) \<and> d q = None then Some Dir else d q)"
  by (simp add: staged_def)

lemma prefix_two_below:
  "prefix q (xs @ [a, b]) \<Longrightarrow> \<not> prefix (xs @ [a]) q \<Longrightarrow> prefix q xs"
  by (auto simp: prefix_append prefix_Cons)

lemma outside_staging:
  assumes "\<not> prefix (TEMP_DIR E) q"
  shows "q \<noteq> ASSETS_DIR E @ [fileName]" and "q \<noteq> TEMP_DIR E @ [''client-extension.yaml'']"
    and "prefix q (ASSETS_DIR E) \<longleftrightarrow> prefix q (OUTPUT_DIR E)"
proof -
  from assms show "q \<noteq> ASSETS_DIR E @ [fileName]"
    and "q \<noteq> TEMP_DIR E @ [''client-extension.yaml'']"
    by (auto simp: dirs prefix_def)
  have "dirname E @ [''output'', ''temp'', ''assets''] = (dirname E @ [''output'']) @ [''temp'', ''assets'']"
    and "dirname E @ [''output'', ''temp''] = (dirname E @ [''output'']) @ [''temp'']"
    by simp_all
  then have "prefix q (OUTPUT_DIR E)" if "prefix q (ASSETS_DIR E)"
    using that assms prefix_two_below [of q "dirname E @ [''output'']" "''temp''" "''assets''"]
    by (simp add: dirs)
  moreover have "prefix q (ASSETS_DIR E)" if "prefix q (OUTPUT_DIR E)"
  proof -
    from that have "prefix q (OUTPUT_DIR E @ [''temp'', ''assets''])"
      by (rule prefix_prefix)
    then show ?thesis
      by (simp add: dirs)
  qed
  ultimately show "prefix q (ASSETS_DIR E) \<longleftrightarrow> prefix q (OUTPUT_DIR E)"
    by blast
qed

lemma staged_outside:
  assumes "\<not> prefix (TEMP_DIR E) q"
  shows "staged E fileName data yamlContent d q =
       (if prefix q (OUTPUT_DIR E) \<and> d q = None then Some Dir else d q)"
  using outside_staging [OF assms] by (simp add: staged_other)

lemma zipPath_outside:
  "\<not> prefix (TEMP_DIR E) (OUTPUT_DIR E @ [technicalName @ ''.zip''])"
  "\<not> prefix (OUTPUT_DIR E @ [technicalName @ ''.zip'']) (OUTPUT_DIR E)"
  using zip_name_not_temp [of technicalName] by (auto simp: dirs prefix_def)

lemma staged_zipPath:
  "staged E fileName data yamlContent d (OUTPUT_DIR E @ [technicalName @ ''.zip'']) =
     d (OUTPUT_DIR E @ [technicalName @ ''.zip''])"
  using staged_outside [OF zipPath_outside(1)] zipPath_outside(2)
  by simp

lemma staged_OUTPUT_DIR:
  "stageable E fileName d \<Longrightarrow> staged E fileName data yamlContent d (OUTPUT_DIR E) = Some Dir"
proof -
  assume ok: "stageable E fileName d"
  have pre: "prefix (OUTPUT_DIR E) (ASSETS_DIR E)"
    by (simp add: dirs prefix_def)
  have "\<not> prefix (TEMP_DIR E) (OUTPUT_DIR E)"
    by (simp add: dirs prefix_def)
  from staged_outside [OF this] stageable_prefix [OF ok pre] show ?thesis
    by auto
qed

lemma saveFiles_noZip:
  assumes "stageable E fileName (disk w)" and "plainName fileName"
  shows "saveFiles E fileName data yamlContent technicalName True w =
     (Inr (),
      say (Log OverwriteNote)
        (say (Log (SavedWithoutZip (TEMP_DIR E)))
           (w\<lparr>disk := staged E fileName data yamlContent (disk w)\<rparr>)))"
proof -
  from staging [OF assms, of data yamlContent] obtain d1 d2 where
    "mkdirSync (ASSETS_DIR E) (disk w) = Inr d1"
    "writeFileSync (pathJoin (ASSETS_DIR E) fileName) data d1 = Inr d2"
    "writeFileSync (pathJoin (TEMP_DIR E) ''client-extension.yaml'') yamlContent d2 =
       Inr (staged E fileName data yamlContent (disk w))"
    by blast
  then show ?thesis
    by (simp add: saveFiles_def Let_def)
qed

lemma saveFiles_zip:
  assumes ok: "stageable E fileName (disk w)" and plain: "plainName fileName"
    and tn: "CHR ''/'' \<notin> set technicalName"
    and free: "disk w (OUTPUT_DIR E @ [technicalName @ ''.zip'']) \<noteq> Some Dir"
  shows "saveFiles E fileName data yamlContent technicalName False w =
     (Inr (),
      say (Log (ZipCreated (OUTPUT_DIR E @ [technicalName @ ''.zip''])))
        (w\<lparr>disk :=
             (\<lambda>q. if prefix (TEMP_DIR E) q then None
                  else ((staged E fileName data yamlContent (disk w))
                          (OUTPUT_DIR E @ [technicalName @ ''.zip''] \<mapsto>
                             Archive [(''assets/'' @ fileName, data),
                                      (''client-extension.yaml'', yamlContent)])) q)\<rparr>))"
proof -
  define st where "st = staged E fileName data yamlContent (disk w)"
  define zipPath where "zipPath = OUTPUT_DIR E @ [technicalName @ ''.zip'']"
  from staging [OF ok plain, of data yamlContent] obtain d1 d2 where steps:
    "mkdirSync (ASSETS_DIR E) (disk w) = Inr d1"
    "writeFileSync (pathJoin (ASSETS_DIR E) fileName) data d1 = Inr d2"
    "writeFileSync (pathJoin (TEMP_DIR E) ''client-extension.yaml'') yamlContent d2 = Inr st"
    unfolding st_def by blast
  have paths: "pathJoin (ASSETS_DIR E) fileName = ASSETS_DIR E @ [fileName]"
    "pathJoin (TEMP_DIR E) ''client-extension.yaml'' = TEMP_DIR E @ [''client-extension.yaml'']"
    "pathJoin (OUTPUT_DIR E) (technicalName @ ''.zip'') = zipPath"
    by (simp_all add: pathJoin_plain plain plainName_literals plainName_zip [OF tn] zipPath_def)
  have add1: "addLocalFile st (ASSETS_DIR E @ [fileName]) (Some ''assets'') [] =
      Inr [(''assets/'' @ fileName, data)]"
    by (simp add: addLocalFile_def st_def staged_files)
  have add2: "addLocalFile st (TEMP_DIR E @ [''client-extension.yaml'']) None z =
      Inr (z @ [(''client-extension.yaml'', yamlContent)])" for z
    by (simp add: addLocalFile_def st_def staged_files)
  have "st zipPath \<noteq> Some Dir"
    using free by (simp add: st_def zipPath_def staged_zipPath)
  moreover have "st (butlast zipPath) = Some Dir"
    using staged_OUTPUT_DIR [OF ok] by (simp add: st_def zipPath_def)
  ultimately have wz: "writeZip zipPath z st = Inr (st(zipPath \<mapsto> Archive z))" for z
    by (simp add: writeZip_def)
  have rm: "rmSync (TEMP_DIR E) True True d4 = Inr (\<lambda>q. if prefix (TEMP_DIR E) q then None else d4 q)"
    for d4
    by (simp add: rmSync_def)
  note steps' = steps [unfolded paths]
  have "saveFiles E fileName data yamlContent technicalName False w =
     (Inr (),
      say (Log (ZipCreated zipPath))
        (w\<lparr>disk :=
             (\<lambda>q. if prefix (TEMP_DIR E) q then None
                  else (st(zipPath \<mapsto>
                             Archive [(''assets/'' @ fileName, data),
                                      (''client-extension.yaml'', yamlContent)])) q)\<rparr>))"
    by (simp add: saveFiles_def paths steps' Let_def add1 add2 wz rm cong: if_cong)
  then show ?thesis
    unfolding st_def zipPath_def .
qed

lemma saveFiles_blocked:
  assumes "regularFile (disk w (OUTPUT_DIR E))"
  shows "\<exists>code. saveFiles E fileName data yamlContent technicalName noZipFlag w =
      (Inl (SystemError code), w)"
proof -
  have "OUTPUT_DIR E \<in> set (prefixes (ASSETS_DIR E))"
    by (simp add: in_set_prefixes dirs prefix_def)
  with assms have "list_ex (\<lambda>q. regularFile (disk w q)) (prefixes (ASSETS_DIR E))"
    unfolding list_ex_iff by blast
  then have "\<exists>code. mkdirSync (ASSETS_DIR E) (disk w) = Inl (SystemError code)"
    by (simp add: mkdirSync_def)
  then show ?thesis
    by (auto simp: saveFiles_def)
qed

text \<open>
  C8. Where the disk lets it (no file stands where a staging directory goes, no
  directory where a file goes), \<open>saveFiles\<close> writes the merged content under the
  staging assets directory and the manifest under the staging root, whatever the flag.
  Without \<open>--no-zip\<close> it then writes one archive \<open>technicalName.zip\<close> in the output
  directory, holding the content file under \<open>assets/\<close> and the manifest at the root,
  and removes the whole staging tree (removing a tree that is absent changes nothing and
  is no error, as \<open>force\<close> is set); outside the staging tree nothing else changes but
  the directories made. With \<open>--no-zip\<close> the staging tree stays, with the two files in
  it, no archive is written, and the console gets the note on the shared staging
  directory. Where a file system call throws, so does \<open>saveFiles\<close>: with a file in
  the place of the output directory nothing is written.
\<close>

theorem saveFiles_effect:
  "(plainName fileName \<and> stageable E fileName (disk w) \<longrightarrow>
      staged E fileName data yamlContent (disk w) (ASSETS_DIR E @ [fileName]) = Some (File data)
      \<and> staged E fileName data yamlContent (disk w) (TEMP_DIR E @ [''client-extension.yaml'']) =
          Some (File yamlContent)
      \<and> (\<exists>w'. saveFiles E fileName data yamlContent technicalName True w = (Inr (), w')
            \<and> disk w' = staged E fileName data yamlContent (disk w)
            \<and> (\<forall>q. q \<noteq> ASSETS_DIR E @ [fileName] \<and> q \<noteq> TEMP_DIR E @ [''client-extension.yaml''] \<longrightarrow>
                  disk w' q = (if prefix q (ASSETS_DIR E) \<and> disk w q = None then Some Dir else disk w q))
            \<and> (\<forall>q entries. disk w' q = Some (Archive entries) \<longrightarrow> disk w q = Some (Archive entries))
            \<and> console w' = console w @ [Log (SavedWithoutZip (TEMP_DIR E)), Log OverwriteNote])
      \<and> (CHR ''/'' \<notin> set technicalName
           \<and> disk w (OUTPUT_DIR E @ [technicalName @ ''.zip'']) \<noteq> Some Dir \<longrightarrow>
           pathJoin (OUTPUT_DIR E) (technicalName @ ''.zip'') = OUTPUT_DIR E @ [technicalName @ ''.zip'']
           \<and> (\<exists>w'. saveFiles E fileName data yamlContent technicalName False w = (Inr (), w')
                 \<and> disk w' =
                     (\<lambda>q. if prefix (TEMP_DIR E) q then None
                          else ((staged E fileName data yamlContent (disk w))
                                  (OUTPUT_DIR E @ [technicalName @ ''.zip''] \<mapsto>
                                     Archive [(''assets/'' @ fileName, data),
                                              (''client-extension.yaml'', yamlContent)])) q)
                 \<and> disk w' (OUTPUT_DIR E @ [technicalName @ ''.zip'']) =
                     Some (Archive [(''assets/'' @ fileName, data),
                                    (''client-extension.yaml'', yamlContent)])
                 \<and> (\<forall>q. prefix (TEMP_DIR E) q \<longrightarrow> disk w' q = None)
                 \<and> (\<forall>q. \<not> prefix (TEMP_DIR E) q \<and> q \<noteq> OUTPUT_DIR E @ [technicalName @ ''.zip''] \<longrightarrow>
                       disk w' q =
                         (if prefix q (OUTPUT_DIR E) \<and> disk w q = None then Some Dir else disk w q))
                 \<and> console w' =
                     console w @ [Log (ZipCreated (OUTPUT_DIR E @ [technicalName @ ''.zip'']))])))
   \<and> ((\<forall>q. prefix p q \<longrightarrow> d q = None) \<longrightarrow> rmSync p True True d = Inr d)
   \<and> (regularFile (disk w (OUTPUT_DIR E)) \<longrightarrow>
        (\<exists>code. saveFiles E fileName data yamlContent technicalName noZipFlag w =
           (Inl (SystemError code), w)))"
proof (intro conjI impI)
  assume h: "plainName fileName \<and> stageable E fileName (disk w)"
  then have plain: "plainName fileName" and ok: "stageable E fileName (disk w)"
    by simp_all
  show "staged E fileName data yamlContent (disk w) (ASSETS_DIR E @ [fileName]) = Some (File data)"
    by (rule staged_files)
  show "staged E fileName data yamlContent (disk w) (TEMP_DIR E @ [''client-extension.yaml'']) =
      Some (File yamlContent)"
    by (rule staged_files)
  show "\<exists>w'. saveFiles E fileName data yamlContent technicalName True w = (Inr (), w')
      \<and> disk w' = staged E fileName data yamlContent (disk w)
      \<and> (\<forall>q. q \<noteq> ASSETS_DIR E @ [fileName] \<and> q \<noteq> TEMP_DIR E @ [''client-extension.yaml''] \<longrightarrow>
            disk w' q = (if prefix q (ASSETS_DIR E) \<and> disk w q = None then Some Dir else disk w q))
      \<and> (\<forall>q entries. disk w' q = Some (Archive entries) \<longrightarrow> disk w q = Some (Archive entries))
      \<and> console w' = console w @ [Log (SavedWithoutZip (TEMP_DIR E)), Log OverwriteNote]"
    unfolding saveFiles_noZip [OF ok plain]
    by (auto simp: say_def staged_def split: if_splits)
  { assume z: "CHR ''/'' \<notin> set technicalName
        \<and> disk w (OUTPUT_DIR E @ [technicalName @ ''.zip'']) \<noteq> Some Dir"
    then have tn: "CHR ''/'' \<notin> set technicalName"
      and free: "disk w (OUTPUT_DIR E @ [technicalName @ ''.zip'']) \<noteq> Some Dir"
      by simp_all
    show "pathJoin (OUTPUT_DIR E) (technicalName @ ''.zip'') = OUTPUT_DIR E @ [technicalName @ ''.zip'']"
      by (rule pathJoin_plain) (rule plainName_zip [OF tn])
    show "\<exists>w'. saveFiles E fileName data yamlContent technicalName False w = (Inr (), w')
        \<and> disk w' =
            (\<lambda>q. if prefix (TEMP_DIR E) q then None
                 else ((staged E fileName data yamlContent (disk w))
                         (OUTPUT_DIR E @ [technicalName @ ''.zip''] \<mapsto>
                            Archive [(''assets/'' @ fileName, data),
                                     (''client-extension.yaml'', yamlContent)])) q)
        \<and> disk w' (OUTPUT_DIR E @ [technicalName @ ''.zip'']) =
            Some (Archive [(''assets/'' @ fileName, data),
                           (''client-extension.yaml'', yamlContent)])
        \<and> (\<forall>q. prefix (TEMP_DIR E) q \<longrightarrow> disk w' q = None)
        \<and> (\<forall>q. \<not> prefix (TEMP_DIR E) q \<and> q \<noteq> OUTPUT_DIR E @ [technicalName @ ''.zip''] \<longrightarrow>
              disk w' q =
                (if prefix q (OUTPUT_DIR E) \<and> disk w q = None then Some Dir else disk w q))
        \<and> console w' =
            console w @ [Log (ZipCreated (OUTPUT_DIR E @ [technicalName @ ''.zip'']))]"
      unfolding saveFiles_zip [OF ok plain tn free]
      using zipPath_outside(1) [of E technicalName]
      by (simp add: say_def staged_outside) }
next
  assume "\<forall>q. prefix p q \<longrightarrow> d q = None"
  then show "rmSync p True True d = Inr d"
    by (auto simp: rmSync_def)
next
  assume "regularFile (disk w (OUTPUT_DIR E))"
  then show "\<exists>code. saveFiles E fileName data yamlContent technicalName noZipFlag w =
      (Inl (SystemError code), w)"
    by (rule saveFiles_blocked)
qed

theorem saveFiles_effect_witness:
  "(\<exists>w'. saveFiles demoEnv ''global.css'' ''a{}'' ''assemble: ...'' ''shop-css'' False emptyWorld = (Inr (), w')
      \<and> disk w' [''app'', ''output'', ''shop-css.zip''] =
          Some (Archive [(''assets/global.css'', ''a{}''), (''client-extension.yaml'', ''assemble: ...'')])
      \<and> disk w' [''app'', ''output'', ''temp'', ''assets'', ''global.css''] = None)
   \<and> (\<exists>w'. saveFiles demoEnv ''global.css'' ''a{}'' ''assemble: ...'' ''shop-css'' True emptyWorld = (Inr (), w')
      \<and> disk w' [''app'', ''output'', ''temp'', ''assets'', ''global.css''] = Some (File ''a{}'')
      \<and> disk w' [''app'', ''output'', ''shop-css.zip''] = None)
   \<and> rmSync [''app'', ''output'', ''temp''] True True Map.empty = Inr Map.empty
   \<and> (\<exists>code. saveFiles demoEnv ''global.css'' ''a{}'' ''assemble: ...'' ''shop-css'' False blockedWorld =
         (Inl (SystemError code), blockedWorld))"
proof -
  have paths: "OUTPUT_DIR demoEnv = [''app'', ''output'']"
    "TEMP_DIR demoEnv = [''app'', ''output'', ''temp'']"
    "ASSETS_DIR demoEnv = [''app'', ''output'', ''temp'', ''assets'']"
    by (simp_all add: dirs demoEnv_def)
  have empty: "disk emptyWorld = Map.empty"
    by (simp add: emptyWorld_def)
  have ok: "plainName ''global.css'' \<and> stageable demoEnv ''global.css'' (disk emptyWorld)"
    by (simp add: plainName_def stageable_def empty regularFile_def list_all_iff)
  have zip: "CHR ''/'' \<notin> set ''shop-css''
      \<and> disk emptyWorld (OUTPUT_DIR demoEnv @ [''shop-css'' @ ''.zip'']) \<noteq> Some Dir"
    by (simp add: empty)
  have blocked: "regularFile (disk blockedWorld (OUTPUT_DIR demoEnv))"
    by (simp add: blockedWorld_def paths regularFile_def)
  note inst = saveFiles_effect [of "''global.css''" demoEnv emptyWorld "''a{}''" "''assemble: ...''"
      "''shop-css''" "[''app'', ''output'', ''temp'']" "Map.empty" False]
  from inst ok zip obtain w1 w2 where
    zipped: "saveFiles demoEnv ''global.css'' ''a{}'' ''assemble: ...'' ''shop-css'' False emptyWorld = (Inr (), w1)"
      "disk w1 (OUTPUT_DIR demoEnv @ [''shop-css'' @ ''.zip'']) =
         Some (Archive [(''assets/'' @ ''global.css'', ''a{}''), (''client-extension.yaml'', ''assemble: ...'')])"
      "\<forall>q. prefix (TEMP_DIR demoEnv) q \<longrightarrow> disk w1 q = None"
    and kept: "saveFiles demoEnv ''global.css'' ''a{}'' ''assemble: ...'' ''shop-css'' True emptyWorld = (Inr (), w2)"
      "disk w2 = staged demoEnv ''global.css'' ''a{}'' ''assemble: ...'' (disk emptyWorld)"
    by blast
  have a: "disk w1 [''app'', ''output'', ''temp'', ''assets'', ''global.css''] = None"
    using zipped(3) by (simp add: paths)
  have b: "disk w2 [''app'', ''output'', ''temp'', ''assets'', ''global.css''] = Some (File ''a{}'')"
    "disk w2 [''app'', ''output'', ''shop-css.zip''] = None"
    by (simp_all add: kept(2) staged_def paths empty)
  have absent: "\<forall>q. prefix [''app'', ''output'', ''temp''] q \<longrightarrow> (Map.empty :: disk) q = None"
    by simp
  with inst have r: "rmSync [''app'', ''output'', ''temp''] True True Map.empty = Inr Map.empty"
    by blast
  from saveFiles_effect [of "''global.css''" demoEnv blockedWorld "''a{}''" "''assemble: ...''"
      "''shop-css''" "[''app'', ''output'', ''temp'']" "Map.empty" False] blocked
  have c: "\<exists>code. saveFiles demoEnv ''global.css'' ''a{}'' ''assemble: ...'' ''shop-css'' False blockedWorld =
      (Inl (SystemError code), blockedWorld)"
    by blast
  from zipped(1,2) kept(1) a b c r show ?thesis
    by (simp add: paths)
qed

section \<open>promptSelection\<close>

lemma code_digitChar: "d < 10 \<Longrightarrow> code (digitChar d) = 48 + d"
  by (simp add: digitChar_def code_def)

lemma isDigit_digitChar: "d < 10 \<Longrightarrow> isDigit (digitChar d)"
  by (simp add: isDigit_def code_digitChar)

lemma isDigit_plain:
  "isDigit c \<Longrightarrow> \<not> isWhiteSpace c \<and> c \<noteq> CHR ''+'' \<and> c \<noteq> CHR ''-''"
  by (auto simp: isDigit_def isWhiteSpace_def code_def)

lemma natToString_digits: "natToString n \<noteq> [] \<and> (\<forall>c\<in>set (natToString n). isDigit c)"
proof (induction n rule: natToString.induct)
  case (1 n)
  show ?case
  proof (cases "n < 10")
    case True
    then show ?thesis
      by (subst (1 2) natToString.simps) (simp add: isDigit_digitChar)
  next
    case False
    with 1 show ?thesis
      by (subst (1 2) natToString.simps) (simp add: isDigit_digitChar)
  qed
qed

lemma digitsValue_snoc: "digitsValue (ds @ [c]) = 10 * digitsValue ds + (code c - 48)"
  by (simp add: digitsValue_def)

lemma digitsValue_natToString: "digitsValue (natToString n) = n"
proof (induction n rule: natToString.induct)
  case (1 n)
  show ?case
  proof (cases "n < 10")
    case True
    then show ?thesis
      by (subst natToString.simps) (simp add: digitsValue_def code_digitChar)
  next
    case False
    with 1 have "digitsValue (natToString (n div 10)) = n div 10"
      by simp
    with False show ?thesis
      by (subst natToString.simps) (simp add: digitsValue_snoc code_digitChar)
  qed
qed

lemma parseInt10_digits:
  assumes "ds \<noteq> []" and "\<forall>c\<in>set ds. isDigit c"
  shows "parseInt10 ds = Some (int (digitsValue ds))"
proof -
  from assms obtain c cs where ds: "ds = c # cs" and c: "isDigit c"
    by (cases ds) auto
  from c have plain: "\<not> isWhiteSpace c" "c \<noteq> CHR ''+''" "c \<noteq> CHR ''-''"
    using isDigit_plain by blast+
  have "takeWhile isDigit ds = ds"
    using assms(2) by (simp add: takeWhile_eq_all_conv)
  then show ?thesis
    using plain assms(1) by (simp add: parseInt10_def ds)
qed

lemma parseInt10_natToString: "parseInt10 (natToString n) = Some (int n)"
  using parseInt10_digits [of "natToString n"] natToString_digits [of n]
  by (simp add: digitsValue_natToString)

lemma elementAt_index: "i < length xs \<Longrightarrow> elementAt xs (parseInt10 (natToString i)) = Some (xs ! i)"
  by (simp add: parseInt10_natToString elementAt_def)

lemma sorted_wrt_pred:
  "sorted_wrt (<) (js :: nat list) \<Longrightarrow> \<forall>j\<in>set js. 0 < j \<Longrightarrow>
     sorted_wrt (<) (map (\<lambda>j. j - 1) js)"
proof (induction js)
  case Nil
  then show ?case by simp
next
  case (Cons j js)
  have "j - 1 < y - 1" if "y \<in> set js" for y
  proof -
    from that Cons.prems have "j < y" and "0 < j"
      by auto
    then show ?thesis by arith
  qed
  then have "\<forall>y\<in>set js. j - 1 < y - 1"
    by blast
  with Cons show ?case by simp
qed

lemma subseq_map_nth:
  "sorted_wrt (<) is \<Longrightarrow> \<forall>i\<in>set is. i < length xs \<Longrightarrow> subseq (map ((!) xs) is) xs"
proof (induction xs arbitrary: "is")
  case Nil
  then show ?case by (cases "is") auto
next
  case (Cons x xs)
  show ?case
  proof (cases "is")
    case Nil
    then show ?thesis by simp
  next
    case (Cons i js)
    with Cons.prems have js_pos: "\<forall>j\<in>set js. 0 < j"
      by auto
    have shift: "map ((!) (x # xs)) js = map ((!) xs) (map (\<lambda>j. j - 1) js)"
      using js_pos by (auto simp: nth_Cons')
    have sorted_js: "sorted_wrt (<) (map (\<lambda>j. j - 1) js)"
      using Cons.prems(1) js_pos unfolding Cons
      by (intro sorted_wrt_pred) simp_all
    have range_js: "\<forall>j\<in>set (map (\<lambda>j. j - 1) js). j < length xs"
      using Cons.prems(2) js_pos unfolding Cons by fastforce
    have tail: "subseq (map ((!) xs) (map (\<lambda>j. j - 1) js)) xs"
      by (rule Cons.IH [OF sorted_js range_js])
    show ?thesis
    proof (cases i)
      case 0
      have "map ((!) (x # xs)) is = x # map ((!) xs) (map (\<lambda>j. j - 1) js)"
        unfolding Cons 0 using shift by (simp only: list.map nth_Cons_0)
      moreover from tail have "subseq (x # map ((!) xs) (map (\<lambda>j. j - 1) js)) (x # xs)"
        by (rule subseq_Cons2)
      ultimately show ?thesis
        by (simp only:)
    next
      case (Suc k)
      have pos: "\<forall>j\<in>set is. 0 < j"
        using js_pos Suc unfolding Cons by simp
      have same: "map ((!) (x # xs)) is = map ((!) xs) (map (\<lambda>j. j - 1) is)"
        using pos by (auto simp: nth_Cons')
      have "sorted_wrt (<) (map (\<lambda>j. j - 1) is)"
        using Cons.prems(1) pos by (intro sorted_wrt_pred) simp_all
      moreover have "\<forall>j\<in>set (map (\<lambda>j. j - 1) is). j < length xs"
        using Cons.prems(2) pos by fastforce
      ultimately have "subseq (map ((!) xs) (map (\<lambda>j. j - 1) is)) xs"
        by (rule Cons.IH)
      then have "subseq (map ((!) xs) (map (\<lambda>j. j - 1) is)) (x # xs)"
        by (rule list_emb_Cons)
      with same show ?thesis
        by (simp only:)
    qed
  qed
qed

lemma choiceValue_choicesFor:
  "map choiceValue (choicesFor resources) = map natToString [0..<length resources]"
proof -
  have "map choiceValue (choicesFor resources) =
      map (\<lambda>p. natToString (snd p)) (zip resources [0..<length resources])"
    by (simp add: choicesFor_def case_prod_beta comp_def)
  also have "\<dots> = map natToString (map snd (zip resources [0..<length resources]))"
    by (simp only: map_map comp_def)
  also have "map snd (zip resources [0..<length resources]) = [0..<length resources]"
    by (rule map_snd_zip) simp
  finally show ?thesis .
qed

lemma promptSelection_reported:
  "fst (promptSelection E resources cls False w) =
     (case checkbox E cls (choicesFor resources) of
        Inl e \<Rightarrow> Threw e
      | Inr vs \<Rightarrow> Returned (map (\<lambda>v. elementAt resources (parseInt10 v)) vs))"
  by (simp add: promptSelection_def Let_def split: sum.splits)

text \<open>
  C5, as amended. The Selection Gate returns the references in the order in which the
  selection service reports their values: with \<open>--all\<close> the whole input; otherwise one
  entry per reported value, the reference at that position (and the error of the
  service when it rejects). When the service reports
  the chosen positions in increasing order, as a checkbox prompt does whatever the
  order of the operator's toggles, the output is a subsequence of the input, in
  discovery order.
\<close>

theorem promptSelection_order:
  "fst (promptSelection E resources cls True w) = Returned (map Some resources)
   \<and> map choiceValue (choicesFor resources) = map natToString [0..<length resources]
   \<and> fst (promptSelection E resources cls False w) =
       (case checkbox E cls (choicesFor resources) of
          Inl e \<Rightarrow> Threw e
        | Inr vs \<Rightarrow> Returned (map (\<lambda>v. elementAt resources (parseInt10 v)) vs))
   \<and> (checkbox E cls (choicesFor resources) = Inr (map natToString is) \<and> sorted_wrt (<) is
        \<and> (\<forall>i\<in>set is. i < length resources) \<longrightarrow>
        fst (promptSelection E resources cls False w) = Returned (map Some (map ((!) resources) is))
        \<and> subseq (map ((!) resources) is) resources)"
proof (intro conjI impI)
  show "fst (promptSelection E resources cls True w) = Returned (map Some resources)"
    by (simp add: promptSelection_def)
  show "map choiceValue (choicesFor resources) = map natToString [0..<length resources]"
    by (rule choiceValue_choicesFor)
  show "fst (promptSelection E resources cls False w) =
      (case checkbox E cls (choicesFor resources) of
         Inl e \<Rightarrow> Threw e
       | Inr vs \<Rightarrow> Returned (map (\<lambda>v. elementAt resources (parseInt10 v)) vs))"
    by (rule promptSelection_reported)
next
  assume h: "checkbox E cls (choicesFor resources) = Inr (map natToString is) \<and> sorted_wrt (<) is
      \<and> (\<forall>i\<in>set is. i < length resources)"
  then show "fst (promptSelection E resources cls False w) =
      Returned (map Some (map ((!) resources) is))"
    by (simp add: promptSelection_reported elementAt_index)
  from h show "subseq (map ((!) resources) is) resources"
    by (intro subseq_map_nth) simp_all
qed

lemma demo_checkbox:
  "checkbox demoEnv Css (choicesFor [External ''a'' ''a'', Inline ''<style> inline #1'' ''b'']) =
     Inr (map natToString [0, 1])"
  by code_simp

theorem promptSelection_order_witness:
  "fst (promptSelection demoEnv [External ''a'' ''a'', Inline ''<style> inline #1'' ''b''] Css False emptyWorld) =
     Returned [Some (External ''a'' ''a''), Some (Inline ''<style> inline #1'' ''b'')]
   \<and> subseq [External ''a'' ''a'', Inline ''<style> inline #1'' ''b'']
       [External ''a'' ''a'', Inline ''<style> inline #1'' ''b'']"
proof -
  let ?rs = "[External ''a'' ''a'', Inline ''<style> inline #1'' ''b'']"
  have h: "checkbox demoEnv Css (choicesFor ?rs) = Inr (map natToString [0, 1])
      \<and> sorted_wrt (<) [0, 1 :: nat] \<and> (\<forall>i\<in>set [0, 1]. i < length ?rs)"
    using demo_checkbox by simp
  from promptSelection_order [of demoEnv ?rs Css emptyWorld "[0, 1]"] h
  have "fst (promptSelection demoEnv ?rs Css False emptyWorld) =
      Returned (map Some (map ((!) ?rs) [0, 1]))
      \<and> subseq (map ((!) ?rs) [0, 1]) ?rs"
    by blast
  then show ?thesis
    by simp
qed

text \<open>
  C5 as stated fails: when the service reports the second item before the first, so
  does \<open>promptSelection\<close>, and its output is not a subsequence of the input.
\<close>

theorem promptSelection_reorder_counterexample:
  "fst (promptSelection reverseEnv [External ''a'' ''a'', Inline ''<style> inline #1'' ''b''] Css False emptyWorld) =
     Returned [Some (Inline ''<style> inline #1'' ''b''), Some (External ''a'' ''a'')]
   \<and> \<not> subseq [Inline ''<style> inline #1'' ''b'', External ''a'' ''a'']
       [External ''a'' ''a'', Inline ''<style> inline #1'' ''b'']"
proof -
  have "fst (promptSelection reverseEnv [External ''a'' ''a'', Inline ''<style> inline #1'' ''b''] Css False emptyWorld) =
      Returned [Some (Inline ''<style> inline #1'' ''b''), Some (External ''a'' ''a'')]"
    by code_simp
  then show ?thesis
    by simp
qed

section \<open>downloadResources\<close>

text \<open>
  What holds of the promises while the responses arrive: each is fulfilled with the
  fragment of its reference, or is still waiting for the response to an external one;
  and the console holds the warning of every failed fetch that has arrived.
\<close>

lemma header_eq: "header l = ''/* '' @ l @ '' */'' @ [CHR 0x0A]"
  by (simp add: header_def newline_def)


lemma fragment_discovered: "discovered r \<Longrightarrow> fragment E r = mergeEntry (resolveContent E r)"
  by (cases r) (auto simp: mergeEntry_def split: sum.splits)

lemma merged_mergeStep:
  "\<forall>r\<in>set rs. discovered r \<Longrightarrow> merged E rs = mergeStep (map (resolveContent E) rs)"
proof -
  assume "\<forall>r\<in>set rs. discovered r"
  then have "map (fragment E) rs = map mergeEntry (map (resolveContent E) rs)"
    by (simp add: fragment_discovered)
  then show ?thesis
    unfolding merged_def mergeStep_def by (simp only:)
qed

lemma startAll_promises:
  "startAll (map Some rs) w = (ps, w') \<Longrightarrow>
     ps = map (\<lambda>r. case r of External l u \<Rightarrow> Waiting | Inline l c \<Rightarrow> Fulfilled (fragment E r)) rs"
proof (induction rs arbitrary: w ps w')
  case Nil
  then show ?case by simp
next
  case (Cons r rs)
  then show ?case
    by (cases r) (auto simp: header_eq split: prod.splits)
qed

lemma startAll_frame:
  "startAll rs w = (ps, w') \<Longrightarrow>
     disk w' = disk w \<and> prompted w' = prompted w \<and> asked w' = asked w
     \<and> (\<exists>more. console w' = console w @ more)"
proof (induction rs arbitrary: w ps w')
  case Nil
  then show ?case by simp
next
  case (Cons r rs)
  obtain p w1 where s1: "start r w = (p, w1)"
    by (cases "start r w")
  obtain qs w2 where s2: "startAll rs w1 = (qs, w2)"
    by (cases "startAll rs w1")
  from Cons.prems s1 s2 have w': "w' = w2"
    by simp
  have f1: "disk w1 = disk w \<and> prompted w1 = prompted w \<and> asked w1 = asked w
      \<and> (\<exists>more. console w1 = console w @ more)"
    using s1 by (cases "(r, w)" rule: start.cases) (auto simp: say_def)
  from Cons.IH [OF s2] f1 show ?case
    unfolding w' by auto
qed

lemma arrive_frame:
  "arrive E rs i (ps, w) = (ps', w') \<Longrightarrow>
     length ps' = length ps \<and> disk w' = disk w \<and> prompted w' = prompted w \<and> asked w' = asked w
     \<and> (\<exists>more. console w' = console w @ more)"
  by (auto simp: arrive_def say_def split: if_splits option.splits resource.splits sum.splits)

lemma fold_arrive_frame:
  "fold (arrive E rs) order (ps, w) = (ps', w') \<Longrightarrow>
     length ps' = length ps \<and> disk w' = disk w \<and> prompted w' = prompted w \<and> asked w' = asked w
     \<and> (\<exists>more. console w' = console w @ more)"
proof (induction order arbitrary: ps w)
  case Nil
  then show ?case by simp
next
  case (Cons i order)
  obtain ps1 w1 where a: "arrive E rs i (ps, w) = (ps1, w1)"
    by (cases "arrive E rs i (ps, w)")
  with Cons.prems have "fold (arrive E rs) order (ps1, w1) = (ps', w')"
    by simp
  from Cons.IH [OF this] arrive_frame [OF a] show ?case
    by auto
qed

lemma arrive_Some:
  "length ps = length rs \<Longrightarrow>
     arrive E (map Some rs) i (ps, w) =
       (if i < length rs \<and> ps ! i = Waiting then
          (case rs ! i of
             External l u \<Rightarrow>
               (ps[i := Fulfilled (fragment E (rs ! i))],
                say (case axiosGet E u of
                       Inr body \<Rightarrow> Log (LoadedExternal u)
                     | Inl msg \<Rightarrow> Warn (FailedToLoad u msg)) w)
           | Inline l c \<Rightarrow> (ps, w))
        else (ps, w))"
  by (auto simp: arrive_def header_eq split: resource.splits sum.splits)

lemma settling_startAll: "settling E rs (startAll (map Some rs) w)"
proof -
  obtain ps w' where st: "startAll (map Some rs) w = (ps, w')"
    by (cases "startAll (map Some rs) w")
  note ps = startAll_promises [OF st, of E]
  have "length ps = length rs"
    using ps by simp
  moreover have "ps ! j = Fulfilled (fragment E (rs ! j))
      \<or> (ps ! j = Waiting \<and> (\<exists>l u. rs ! j = External l u))" if "j < length rs" for j
    using that by (cases "rs ! j") (simp_all add: ps)
  moreover have "ps ! j = Waiting" if "j < length rs" "rs ! j = External l u" for j l u
    using that by (simp add: ps)
  ultimately show ?thesis
    unfolding st settling_def by auto
qed

lemma settling_arrive:
  assumes "settling E rs (ps, w)"
  shows "settling E rs (arrive E (map Some rs) i (ps, w))"
proof -
  from assms have len: "length ps = length rs"
    by (simp add: settling_def)
  show ?thesis
  proof (cases "i < length rs \<and> ps ! i = Waiting")
    case False
    then have "arrive E (map Some rs) i (ps, w) = (ps, w)"
      using len by (auto simp: arrive_Some)
    with assms show ?thesis
      by simp
  next
    case True
    with assms obtain l u where ext: "rs ! i = External l u"
      by (auto simp: settling_def)
    let ?out = "case axiosGet E u of Inr body \<Rightarrow> Log (LoadedExternal u)
      | Inl msg \<Rightarrow> Warn (FailedToLoad u msg)"
    have step: "arrive E (map Some rs) i (ps, w) =
        (ps[i := Fulfilled (fragment E (rs ! i))], say ?out w)"
      using True ext len by (simp add: arrive_Some)
    have "(ps[i := Fulfilled (fragment E (rs ! i))] ! j = Fulfilled (fragment E (rs ! j))
          \<or> (ps[i := Fulfilled (fragment E (rs ! i))] ! j = Waiting \<and> (\<exists>l u. rs ! j = External l u)))
        \<and> (\<forall>l' u' msg. ps[i := Fulfilled (fragment E (rs ! i))] ! j \<noteq> Waiting
              \<and> rs ! j = External l' u' \<and> axiosGet E u' = Inl msg \<longrightarrow>
              Warn (FailedToLoad u' msg) \<in> set (console (say ?out w)))"
      if j: "j < length rs" for j
    proof (cases "j = i")
      case True
      with j len ext show ?thesis
        by (auto simp: say_def)
    next
      case False
      with j len assms show ?thesis
        by (auto simp: settling_def say_def)
    qed
    with len show ?thesis
      unfolding step settling_def by simp
  qed
qed

lemma arrive_settles:
  assumes "length ps = length rs"
  shows "(i < length rs \<longrightarrow> (\<exists>l u. rs ! i = External l u) \<or> ps ! i \<noteq> Waiting \<longrightarrow>
            fst (arrive E (map Some rs) i (ps, w)) ! i \<noteq> Waiting)
         \<and> (j < length rs \<longrightarrow> ps ! j \<noteq> Waiting \<longrightarrow>
            fst (arrive E (map Some rs) i (ps, w)) ! j \<noteq> Waiting)"
  using assms
  by (auto simp: arrive_Some nth_list_update split: resource.splits)

lemma settling_fold:
  "settling E rs st \<Longrightarrow> settling E rs (fold (arrive E (map Some rs)) order st)"
proof (induction order arbitrary: st)
  case Nil
  then show ?case by simp
next
  case (Cons i order)
  obtain ps w where st: "st = (ps, w)"
    by (cases st)
  from Cons.prems have "settling E rs (arrive E (map Some rs) i st)"
    unfolding st by (rule settling_arrive)
  then show ?case
    by (simp add: Cons.IH)
qed

lemma fold_settles:
  "settling E rs (ps, w) \<Longrightarrow> j < length rs \<Longrightarrow> j \<in> set order \<or> ps ! j \<noteq> Waiting \<Longrightarrow>
     fst (fold (arrive E (map Some rs)) order (ps, w)) ! j \<noteq> Waiting"
proof (induction order arbitrary: ps w)
  case Nil
  then show ?case by simp
next
  case (Cons i order)
  obtain ps1 w1 where a: "arrive E (map Some rs) i (ps, w) = (ps1, w1)"
    by (cases "arrive E (map Some rs) i (ps, w)")
  from Cons.prems(1) have len: "length ps = length rs"
    by (simp add: settling_def)
  have s1: "settling E rs (ps1, w1)"
    using settling_arrive [OF Cons.prems(1), of i] by (simp add: a)
  have "j \<in> set order \<or> ps1 ! j \<noteq> Waiting"
  proof (cases "ps ! j = Waiting")
    case False
    with arrive_settles [OF len, where i = i and E = E and j = j and w = w] Cons.prems(2) show ?thesis
      by (simp add: a)
  next
    case True
    show ?thesis
    proof (cases "j = i")
      case False
      with True Cons.prems(3) show ?thesis
        by simp
    next
      case same: True
      from True Cons.prems(1,2) have "\<exists>l u. rs ! j = External l u"
        by (auto simp: settling_def)
      with arrive_settles [OF len, where i = i and E = E and j = j and w = w] Cons.prems(2) same show ?thesis
        by (simp add: a)
    qed
  qed
  from Cons.IH [OF s1 Cons.prems(2) this] show ?case
    by (simp add: a)
qed

lemma fulfilledValues_fulfilled:
  "fulfilledValues (map (\<lambda>r. Fulfilled (f r)) rs) = Some (map f rs)"
  by (induction rs) simp_all

lemma firstRejection_started:
  "firstRejection
     (map (\<lambda>r. case r of External l u \<Rightarrow> Waiting | Inline l c \<Rightarrow> Fulfilled (f r)) rs) = None"
  by (induction rs) (simp_all split: resource.splits)

lemma all_settled:
  assumes "settling E rs (ps, w)" and "\<forall>j<length rs. ps ! j \<noteq> Waiting"
  shows "ps = map (\<lambda>r. Fulfilled (fragment E r)) rs"
proof (rule nth_equalityI)
  from assms(1) show "length ps = length (map (\<lambda>r. Fulfilled (fragment E r)) rs)"
    by (simp add: settling_def)
next
  fix j
  assume "j < length ps"
  with assms(1) have j: "j < length rs"
    by (simp add: settling_def)
  with assms have "ps ! j = Fulfilled (fragment E (rs ! j))"
    by (auto simp: settling_def)
  with j show "ps ! j = map (\<lambda>r. Fulfilled (fragment E r)) rs ! j"
    by simp
qed

lemma downloadResources_merged:
  "\<exists>w'. downloadResources E order (map Some rs) w = (Returned (merged E rs), w')
     \<and> disk w' = disk w \<and> prompted w' = prompted w \<and> asked w' = asked w
     \<and> (\<exists>more. console w' = console w @ more)
     \<and> (\<forall>j l u msg. j < length rs \<and> rs ! j = External l u \<and> axiosGet E u = Inl msg \<longrightarrow>
           Warn (FailedToLoad u msg) \<in> set (console w'))"
proof -
  obtain ps0 w0 where st: "startAll (map Some rs) w = (ps0, w0)"
    by (cases "startAll (map Some rs) w")
  obtain ps w' where fin:
    "fold (arrive E (map Some rs)) (order @ [0..<length rs]) (ps0, w0) = (ps, w')"
    by (cases "fold (arrive E (map Some rs)) (order @ [0..<length rs]) (ps0, w0)")
  have s0: "settling E rs (ps0, w0)"
    using settling_startAll [of E rs w] by (simp add: st)
  have s: "settling E rs (ps, w')"
    using settling_fold [OF s0, of "order @ [0..<length rs]"] by (simp only: fin)
  have none: "\<forall>j<length rs. ps ! j \<noteq> Waiting"
  proof (intro allI impI)
    fix j
    assume j: "j < length rs"
    then have "j \<in> set (order @ [0..<length rs]) \<or> ps0 ! j \<noteq> Waiting"
      by simp
    from fold_settles [OF s0 j this] show "ps ! j \<noteq> Waiting"
      unfolding fin fst_conv .
  qed
  have ps: "ps = map (\<lambda>r. Fulfilled (fragment E r)) rs"
    using s none by (rule all_settled)
  have none0: "firstRejection ps0 = None"
    unfolding startAll_promises [OF st, of E] by (rule firstRejection_started)
  have result: "downloadResources E order (map Some rs) w = (Returned (merged E rs), w')"
    unfolding downloadResources_def length_map st prod.case none0 option.case fin
      ps fulfilledValues_fulfilled merged_def newline_def
    by simp
  have frame: "disk w' = disk w \<and> prompted w' = prompted w \<and> asked w' = asked w
      \<and> (\<exists>more. console w' = console w @ more)"
    using startAll_frame [OF st] fold_arrive_frame [OF fin] by auto
  have warned: "\<forall>j l u msg. j < length rs \<and> rs ! j = External l u \<and> axiosGet E u = Inl msg \<longrightarrow>
      Warn (FailedToLoad u msg) \<in> set (console w')"
    using s none by (auto simp: settling_def)
  from result frame warned show ?thesis
    by blast
qed

lemma callback_discovered:
  "callback cls E baseUrl (found, n) el = Inr (found', n') \<Longrightarrow>
     \<forall>r\<in>set found. discovered r \<Longrightarrow> \<forall>r\<in>set found'. discovered r"
  by (cases cls)
    (auto simp: cssCallback_def jsCallback_def Let_def split: if_splits option.splits)

lemma each_discovered:
  "each (callback cls E baseUrl) (found, n) els = Inr (found', n') \<Longrightarrow>
     \<forall>r\<in>set found. discovered r \<Longrightarrow> \<forall>r\<in>set found'. discovered r"
proof (induction els arbitrary: found n)
  case Nil
  then show ?case by simp
next
  case (Cons el els)
  from Cons.prems(1) obtain found1 n1 where
    step: "callback cls E baseUrl (found, n) el = Inr (found1, n1)"
    and rest: "each (callback cls E baseUrl) (found1, n1) els = Inr (found', n')"
    by (auto split: sum.splits)
  from callback_discovered [OF step Cons.prems(2)] have "\<forall>r\<in>set found1. discovered r" .
  from Cons.IH [OF rest this] show ?case .
qed

lemma parseResources_discovered:
  "parseResources E html baseUrl cls = Inr found \<Longrightarrow> \<forall>r\<in>set found. discovered r"
proof -
  assume "parseResources E html baseUrl cls = Inr found"
  then obtain k where
    "each (callback cls E baseUrl) ([], 1) (cheerio E html (selector cls)) = Inr (found, k)"
    by (auto simp: parseResources_def split: sum.splits)
  from each_discovered [OF this] show ?thesis
    by simp
qed


lemma demo_mergeStep:
  "mergeStep
     (map (resolveContent demoEnv)
        [External ''https://x.test/a.css'' ''https://x.test/a.css'',
         Inline ''<style> inline #1'' ''body{color:red}'',
         External ''https://x.test/gone.css'' ''https://x.test/gone.css'']) =
   ''/* https://x.test/a.css */'' @ [CHR 0x0A] @ ''a{}'' @ [CHR 0x0A, CHR 0x0A]
     @ ''/* <style> inline #1 */'' @ [CHR 0x0A] @ ''body{color:red}'' @ [CHR 0x0A, CHR 0x0A]"
  by code_simp


section \<open>runOnce\<close>

lemma promptSelection_world:
  "fst (promptSelection E rs cls b w) = fst (promptSelection E rs cls b w')"
  by (simp add: promptSelection_def Let_def split: sum.splits)

lemma promptSelection_frame:
  "disk (snd (promptSelection E rs cls b w)) = disk w
   \<and> requests (snd (promptSelection E rs cls b w)) = requests w"
  by (simp add: promptSelection_def Let_def say_def split: sum.splits)

lemma elementAt_member: "elementAt xs k = Some x \<Longrightarrow> x \<in> set xs"
  by (auto simp: elementAt_def split: option.splits if_splits)

lemma promptSelection_approved:
  assumes "fst (promptSelection E found cls b w) = Returned (map Some selected)"
  shows "set selected \<subseteq> set found"
proof (cases b)
  case True
  with assms have "map Some selected = map Some found"
    by (simp add: promptSelection_def)
  then have "selected = found"
    by (simp add: inj_map_eq_map)
  then show ?thesis
    by simp
next
  case False
  show ?thesis
  proof
    fix r
    assume r: "r \<in> set selected"
    from assms False have
      "\<exists>vs. map Some selected = [] \<or> map Some selected = map (\<lambda>v. elementAt found (parseInt10 v)) vs"
      by (auto simp: promptSelection_def Let_def split: sum.splits if_splits
          dest: sym [of "map (\<lambda>i. elementAt found (parseInt10 i)) _" "map Some selected"])
    with r obtain vs where
      eq: "map Some selected = map (\<lambda>v. elementAt found (parseInt10 v)) vs"
      by auto
    from r have "Some r \<in> set (map Some selected)"
      by simp
    then have "Some r \<in> set (map (\<lambda>v. elementAt found (parseInt10 v)) vs)"
      unfolding eq .
    then obtain v where "elementAt found (parseInt10 v) = Some r"
      by auto
    then show "r \<in> set found"
      by (rule elementAt_member)
  qed
qed

lemma fetchPage_ok:
  "axiosGet E targetUrl = Inr html \<Longrightarrow>
     fetchPage E targetUrl w = (Returned html, w\<lparr>requests := requests w @ [targetUrl]\<rparr>)"
  by (simp add: fetchPage_def)

lemma fetchPage_fails:
  "axiosGet E targetUrl = Inl msg \<Longrightarrow>
     fetchPage E targetUrl w =
       (Threw (Error (''Failed to fetch page: '' @ msg)), w\<lparr>requests := requests w @ [targetUrl]\<rparr>)"
  by (simp add: fetchPage_def)

lemma slugify_no_separator: "CHR ''/'' \<notin> set (slugify givenName (modeString cls))"
  by (cases cls) (simp_all add: slugify_def stripDisallowed_def isSlugChar_def code_def)

lemma download_then_save:
  "\<exists>w5. disk w5 = disk w3
     \<and> (\<forall>j l u msg. j < length selected \<and> selected ! j = External l u \<and> axiosGet E u = Inl msg \<longrightarrow>
           Warn (FailedToLoad u msg) \<in> set (console w5))
     \<and> (case downloadResources E order (map Some selected) (say out w3) of
          (Returned combined, w5) \<Rightarrow>
            (case saveFiles E fileName combined yamlContent technicalName noZipFlag w5 of
               (Inl e, w6) \<Rightarrow> (Threw e, w6)
             | (Inr u, w6) \<Rightarrow> (Returned (), w6))
        | (Threw e, w5) \<Rightarrow> (Threw e, w5)
        | (Hangs, w5) \<Rightarrow> (Hangs, w5)) =
       (case saveFiles E fileName (merged E selected) yamlContent technicalName noZipFlag w5 of
          (Inl e, w6) \<Rightarrow> (Threw e, w6)
        | (Inr u, w6) \<Rightarrow> (Returned (), w6))"
proof -
  from downloadResources_merged [of E order selected "say out w3"]
  obtain w5 where dl: "downloadResources E order (map Some selected) (say out w3) =
      (Returned (merged E selected), w5)" and d5: "disk w5 = disk (say out w3)"
    and warned: "\<forall>j l u msg. j < length selected \<and> selected ! j = External l u \<and> axiosGet E u = Inl msg \<longrightarrow>
      Warn (FailedToLoad u msg) \<in> set (console w5)"
    by blast
  from d5 have "disk w5 = disk w3"
    by (simp add: say_def)
  with warned show ?thesis
    by (intro exI [of _ w5]) (simp add: dl)
qed

lemma runOnce_downloads:
  assumes page: "axiosGet E targetUrl = Inr html"
    and parse: "parseResources E html targetUrl cls = Inr found"
    and found: "found \<noteq> []"
    and sel: "fst (promptSelection E found cls (includeAll E) emptyWorld) = Returned (map Some selected)"
    and some: "selected \<noteq> []"
    and vis: "visibleName = (if truthy sharedName then (case sharedName of Some n \<Rightarrow> n | None \<Rightarrow> [])
                            else inputPrompt E cls)"
  shows "\<exists>w5. disk w5 = disk w
           \<and> (\<forall>j l u msg. j < length selected \<and> selected ! j = External l u \<and> axiosGet E u = Inl msg \<longrightarrow>
                 Warn (FailedToLoad u msg) \<in> set (console w5))
           \<and> runOnce E targetUrl cls sharedName w =
               (case saveFiles E (modeFileName cls) (merged E selected)
                       (generateYaml E (slugify visibleName (modeString cls)) visibleName cls
                          (modeFileName cls))
                       (slugify visibleName (modeString cls)) (noZip E) w5 of
                  (Inl e, w6) \<Rightarrow> (Threw e, w6)
                | (Inr u, w6) \<Rightarrow> (Returned (), w6))"
proof -
  let ?w0 = "say (Log (Fetching targetUrl cls)) w"
  let ?w1 = "?w0\<lparr>requests := requests ?w0 @ [targetUrl]\<rparr>"
  obtain picked w2 where ps: "promptSelection E found cls (includeAll E) ?w1 = (picked, w2)"
    by (cases "promptSelection E found cls (includeAll E) ?w1")
  have picked: "picked = Returned (map Some selected)"
  proof -
    have "fst (promptSelection E found cls (includeAll E) ?w1) =
        fst (promptSelection E found cls (includeAll E) emptyWorld)"
      by (rule promptSelection_world)
    then show ?thesis
      unfolding ps fst_conv sel .
  qed
  have d2: "disk w2 = disk w"
  proof -
    have "disk (snd (promptSelection E found cls (includeAll E) ?w1)) = disk ?w1"
      using promptSelection_frame by blast
    then have "disk w2 = disk ?w1"
      unfolding ps snd_conv .
    then show ?thesis
      by (simp add: say_def)
  qed
  let ?tn = "slugify visibleName (modeString cls)"
  let ?yaml = "generateYaml E ?tn visibleName cls (modeFileName cls)"
  let ?w3 = "if truthy sharedName then w2 else w2\<lparr>asked := asked w2 @ [cls]\<rparr>"
  have run: "runOnce E targetUrl cls sharedName w =
      (case downloadResources E (arrival E cls) (map Some selected)
              (say (Log (SelectedBlocks cls (length selected))) ?w3) of
         (Returned combined, w5) \<Rightarrow>
           (case saveFiles E (modeFileName cls) combined ?yaml ?tn (noZip E) w5 of
              (Inl e, w6) \<Rightarrow> (Threw e, w6)
            | (Inr u, w6) \<Rightarrow> (Returned (), w6))
       | (Threw e, w5) \<Rightarrow> (Threw e, w5)
       | (Hangs, w5) \<Rightarrow> (Hangs, w5))"
  proof (cases "truthy sharedName")
    case True
    with vis have v: "visibleName = (case sharedName of Some n \<Rightarrow> n | None \<Rightarrow> [])"
      by simp
    show ?thesis
      unfolding runOnce_def fetchPage_ok [OF page] v
      using parse found some True
      by (simp add: ps picked Let_def)
  next
    case False
    with vis have v: "visibleName = inputPrompt E cls"
      by simp
    show ?thesis
      unfolding runOnce_def fetchPage_ok [OF page] v
      using parse found some False
      by (simp add: ps picked Let_def)
  qed
  have d3: "disk ?w3 = disk w"
    using d2 by simp
  from download_then_save [where ?w3.0 = ?w3 and E = E and order = "arrival E cls"
      and selected = selected and out = "Log (SelectedBlocks cls (length selected))"
      and fileName = "modeFileName cls" and yamlContent = ?yaml and technicalName = ?tn
      and noZipFlag = "noZip E"]
  show ?thesis
    unfolding run d3 .
qed

lemma runOnce_packages:
  assumes page: "axiosGet E targetUrl = Inr html"
    and parse: "parseResources E html targetUrl cls = Inr found"
    and sel: "fst (promptSelection E found cls (includeAll E) emptyWorld) = Returned (map Some selected)"
    and some: "selected \<noteq> []"
    and vis: "visibleName = (if truthy sharedName then (case sharedName of Some n \<Rightarrow> n | None \<Rightarrow> [])
                            else inputPrompt E cls)"
    and ok: "stageable E (modeFileName cls) (disk w)"
    and free: "noZip E \<or> disk w (OUTPUT_DIR E @ [slugify visibleName (modeString cls) @ ''.zip'']) \<noteq> Some Dir"
  shows "fst (runOnce E targetUrl cls sharedName w) = Returned ()"
    and "j < length selected \<Longrightarrow> selected ! j = External l u \<Longrightarrow> axiosGet E u = Inl msg \<Longrightarrow>
           Warn (FailedToLoad u msg) \<in> set (console (snd (runOnce E targetUrl cls sharedName w)))"
    and "\<not> noZip E \<Longrightarrow>
           disk (snd (runOnce E targetUrl cls sharedName w))
             (OUTPUT_DIR E @ [slugify visibleName (modeString cls) @ ''.zip'']) =
           Some (Archive
             [(''assets/'' @ modeFileName cls, mergeStep (map (resolveContent E) selected)),
              (''client-extension.yaml'',
               generateYaml E (slugify visibleName (modeString cls)) visibleName cls
                 (modeFileName cls))])"
    and "noZip E \<Longrightarrow>
           disk (snd (runOnce E targetUrl cls sharedName w)) (ASSETS_DIR E @ [modeFileName cls]) =
           Some (File (mergeStep (map (resolveContent E) selected)))"
proof -
  let ?tn = "slugify visibleName (modeString cls)"
  let ?yaml = "generateYaml E ?tn visibleName cls (modeFileName cls)"
  let ?data = "mergeStep (map (resolveContent E) selected)"
  from sel have sub: "set selected \<subseteq> set found"
    by (rule promptSelection_approved)
  with some have found: "found \<noteq> []"
    by auto
  from parseResources_discovered [OF parse] sub have "\<forall>r\<in>set selected. discovered r"
    by blast
  then have data: "merged E selected = ?data"
    by (rule merged_mergeStep)
  from runOnce_downloads [OF page parse found sel some vis, of w] obtain w5 where
    d5: "disk w5 = disk w"
    and warned: "\<forall>j l u msg. j < length selected \<and> selected ! j = External l u \<and> axiosGet E u = Inl msg \<longrightarrow>
      Warn (FailedToLoad u msg) \<in> set (console w5)"
    and run: "runOnce E targetUrl cls sharedName w =
      (case saveFiles E (modeFileName cls) ?data ?yaml ?tn (noZip E) w5 of
         (Inl e, w6) \<Rightarrow> (Threw e, w6)
       | (Inr u, w6) \<Rightarrow> (Returned (), w6))"
    unfolding data by blast
  from ok have ok5: "stageable E (modeFileName cls) (disk w5)"
    by (simp only: d5)
  note plain = plainName_literals(5) [of cls]
  have kept: "runOnce E targetUrl cls sharedName w =
      (Returned (),
       say (Log OverwriteNote)
         (say (Log (SavedWithoutZip (TEMP_DIR E)))
            (w5\<lparr>disk := staged E (modeFileName cls) ?data ?yaml (disk w5)\<rparr>)))" if "noZip E"
    unfolding run using that saveFiles_noZip [OF ok5 plain, of ?data ?yaml ?tn]
    by simp
  have zipped: "runOnce E targetUrl cls sharedName w =
      (Returned (),
       say (Log (ZipCreated (OUTPUT_DIR E @ [?tn @ ''.zip''])))
         (w5\<lparr>disk :=
              (\<lambda>q. if prefix (TEMP_DIR E) q then None
                   else ((staged E (modeFileName cls) ?data ?yaml (disk w5))
                           (OUTPUT_DIR E @ [?tn @ ''.zip''] \<mapsto>
                              Archive [(''assets/'' @ modeFileName cls, ?data),
                                       (''client-extension.yaml'', ?yaml)])) q)\<rparr>))" if "\<not> noZip E"
  proof -
    from that free have "disk w5 (OUTPUT_DIR E @ [?tn @ ''.zip'']) \<noteq> Some Dir"
      by (simp add: d5)
    from saveFiles_zip [OF ok5 plain slugify_no_separator this, of ?data ?yaml] that
    show ?thesis
      unfolding run by simp
  qed
  show "fst (runOnce E targetUrl cls sharedName w) = Returned ()"
    by (cases "noZip E") (simp_all add: kept zipped)
  { assume "j < length selected" "selected ! j = External l u" "axiosGet E u = Inl msg"
    with warned have "Warn (FailedToLoad u msg) \<in> set (console w5)"
      by blast
    then show "Warn (FailedToLoad u msg) \<in> set (console (snd (runOnce E targetUrl cls sharedName w)))"
      by (cases "noZip E") (simp_all add: kept zipped say_def) }
  { assume z: "\<not> noZip E"
    have "\<not> prefix (TEMP_DIR E) (OUTPUT_DIR E @ [?tn @ ''.zip''])"
      by (rule zipPath_outside(1))
    then show "disk (snd (runOnce E targetUrl cls sharedName w)) (OUTPUT_DIR E @ [?tn @ ''.zip'']) =
        Some (Archive [(''assets/'' @ modeFileName cls, ?data), (''client-extension.yaml'', ?yaml)])"
      unfolding zipped [OF z] by (simp add: say_def) }
  { assume z: "noZip E"
    show "disk (snd (runOnce E targetUrl cls sharedName w)) (ASSETS_DIR E @ [modeFileName cls]) =
        Some (File ?data)"
      unfolding kept [OF z] by (simp add: say_def staged_files) }
qed


lemma mergeStep_around:
  "i < length rs \<Longrightarrow>
     mergeStep (map (resolveContent E) rs) =
       join [CHR 0x0A, CHR 0x0A]
         (map (\<lambda>r. mergeEntry (resolveContent E r)) (take i rs)
            @ mergeEntry (resolveContent E (rs ! i))
            # map (\<lambda>r. mergeEntry (resolveContent E r)) (drop (Suc i) rs))"
proof -
  assume "i < length rs"
  then have "rs = take i rs @ rs ! i # drop (Suc i) rs"
    by (rule id_take_nth_drop)
  then have "map (\<lambda>r. mergeEntry (resolveContent E r)) rs =
      map (\<lambda>r. mergeEntry (resolveContent E r)) (take i rs @ rs ! i # drop (Suc i) rs)"
    by (simp only:)
  then show ?thesis
    by (simp add: mergeStep_def comp_def)
qed

text \<open>
  C4. When the fetch of an approved reference fails (the references are those of
  discovery), resolution as a whole still succeeds: \<open>downloadResources\<close> returns, and
  what it returns is the merge step of the specification applied to the resolved
  contents, in which the failed reference has \<open>succeeded = False\<close> and the empty text;
  the console gets the warning; alone, the failed reference resolves to the empty text;
  in the merged content its entry is empty: no header, no body, no placeholder (the
  entries before and after it are joined as the merge step joins any two entries). And
  the run goes on: where the disk lets \<open>saveFiles\<close> write, \<open>runOnce\<close> returns, the
  warning is on the console, and the artifact (the archive, or with \<open>--no-zip\<close> the
  staged content file) holds that merged content.
\<close>

theorem failed_fetch_tolerated:
  "i < length rs \<and> rs ! i = External l u \<and> axiosGet E u = Inl msg \<and> (\<forall>r\<in>set rs. discovered r) \<longrightarrow>
     (\<exists>w'. downloadResources E order (map Some rs) w =
             (Returned (mergeStep (map (resolveContent E) rs)), w')
           \<and> Warn (FailedToLoad u msg) \<in> set (console w'))
     \<and> resolveContent E (rs ! i) = \<lparr>sourceLabel = l, resolvedText = [], succeeded = False\<rparr>
     \<and> fst (downloadResources E order [Some (rs ! i)] w) = Returned []
     \<and> mergeStep (map (resolveContent E) rs) =
         join [CHR 0x0A, CHR 0x0A]
           (map (\<lambda>r. mergeEntry (resolveContent E r)) (take i rs)
              @ [] # map (\<lambda>r. mergeEntry (resolveContent E r)) (drop (Suc i) rs))
     \<and> (axiosGet E targetUrl = Inr html \<and> parseResources E html targetUrl cls = Inr found
          \<and> fst (promptSelection E found cls (includeAll E) emptyWorld) = Returned (map Some rs)
          \<and> visibleName = (if truthy sharedName then (case sharedName of Some n \<Rightarrow> n | None \<Rightarrow> [])
                             else inputPrompt E cls)
          \<and> stageable E (modeFileName cls) (disk w0)
          \<and> (noZip E
               \<or> disk w0 (OUTPUT_DIR E @ [slugify visibleName (modeString cls) @ ''.zip'']) \<noteq> Some Dir) \<longrightarrow>
          fst (runOnce E targetUrl cls sharedName w0) = Returned ()
          \<and> Warn (FailedToLoad u msg) \<in> set (console (snd (runOnce E targetUrl cls sharedName w0)))
          \<and> (\<not> noZip E \<longrightarrow>
                disk (snd (runOnce E targetUrl cls sharedName w0))
                  (OUTPUT_DIR E @ [slugify visibleName (modeString cls) @ ''.zip'']) =
                Some (Archive
                  [(''assets/'' @ modeFileName cls, mergeStep (map (resolveContent E) rs)),
                   (''client-extension.yaml'',
                    generateYaml E (slugify visibleName (modeString cls)) visibleName cls
                      (modeFileName cls))]))
          \<and> (noZip E \<longrightarrow>
                disk (snd (runOnce E targetUrl cls sharedName w0)) (ASSETS_DIR E @ [modeFileName cls]) =
                Some (File (mergeStep (map (resolveContent E) rs)))))"
proof (intro impI)
  assume h: "i < length rs \<and> rs ! i = External l u \<and> axiosGet E u = Inl msg
      \<and> (\<forall>r\<in>set rs. discovered r)"
  then have i: "i < length rs" and ext: "rs ! i = External l u" and fails: "axiosGet E u = Inl msg"
    and disc: "\<forall>r\<in>set rs. discovered r"
    by simp_all
  from disc have data: "merged E rs = mergeStep (map (resolveContent E) rs)"
    by (rule merged_mergeStep)
  from downloadResources_merged [of E order rs w] i ext fails
  have a1: "\<exists>w'. downloadResources E order (map Some rs) w =
        (Returned (mergeStep (map (resolveContent E) rs)), w')
      \<and> Warn (FailedToLoad u msg) \<in> set (console w')"
    unfolding data by blast
  from fails have a2: "resolveContent E (rs ! i) = \<lparr>sourceLabel = l, resolvedText = [], succeeded = False\<rparr>"
    unfolding ext by simp
  from downloadResources_merged [of E order "[rs ! i]" w]
  have "fst (downloadResources E order [Some (rs ! i)] w) = Returned (merged E [rs ! i])"
    by auto
  with fails have a3: "fst (downloadResources E order [Some (rs ! i)] w) = Returned []"
    unfolding ext by (simp add: merged_def)
  have "mergeEntry (resolveContent E (rs ! i)) = []"
    unfolding a2 by (simp add: mergeEntry_def)
  with mergeStep_around [OF i, of E]
  have a4: "mergeStep (map (resolveContent E) rs) =
      join [CHR 0x0A, CHR 0x0A]
        (map (\<lambda>r. mergeEntry (resolveContent E r)) (take i rs)
           @ [] # map (\<lambda>r. mergeEntry (resolveContent E r)) (drop (Suc i) rs))"
    by (simp only:)
  have b: "fst (runOnce E targetUrl cls sharedName w0) = Returned ()
      \<and> Warn (FailedToLoad u msg) \<in> set (console (snd (runOnce E targetUrl cls sharedName w0)))
      \<and> (\<not> noZip E \<longrightarrow>
            disk (snd (runOnce E targetUrl cls sharedName w0))
              (OUTPUT_DIR E @ [slugify visibleName (modeString cls) @ ''.zip'']) =
            Some (Archive
              [(''assets/'' @ modeFileName cls, mergeStep (map (resolveContent E) rs)),
               (''client-extension.yaml'',
                generateYaml E (slugify visibleName (modeString cls)) visibleName cls
                  (modeFileName cls))]))
      \<and> (noZip E \<longrightarrow>
            disk (snd (runOnce E targetUrl cls sharedName w0)) (ASSETS_DIR E @ [modeFileName cls]) =
            Some (File (mergeStep (map (resolveContent E) rs))))"
    if run: "axiosGet E targetUrl = Inr html \<and> parseResources E html targetUrl cls = Inr found
      \<and> fst (promptSelection E found cls (includeAll E) emptyWorld) = Returned (map Some rs)
      \<and> visibleName = (if truthy sharedName then (case sharedName of Some n \<Rightarrow> n | None \<Rightarrow> [])
                         else inputPrompt E cls)
      \<and> stageable E (modeFileName cls) (disk w0)
      \<and> (noZip E
           \<or> disk w0 (OUTPUT_DIR E @ [slugify visibleName (modeString cls) @ ''.zip'']) \<noteq> Some Dir)"
  proof -
    from run have page: "axiosGet E targetUrl = Inr html"
      and parse: "parseResources E html targetUrl cls = Inr found"
      and sel: "fst (promptSelection E found cls (includeAll E) emptyWorld) = Returned (map Some rs)"
      and vis: "visibleName = (if truthy sharedName then (case sharedName of Some n \<Rightarrow> n | None \<Rightarrow> [])
                         else inputPrompt E cls)"
      and ok: "stageable E (modeFileName cls) (disk w0)"
      and free: "noZip E
           \<or> disk w0 (OUTPUT_DIR E @ [slugify visibleName (modeString cls) @ ''.zip'']) \<noteq> Some Dir"
      by blast+
    from i have some: "rs \<noteq> []"
      by auto
    note facts = runOnce_packages [OF page parse sel some vis ok free]
    from facts(1) facts(2) [OF i ext fails] facts(3) facts(4) show ?thesis
      by (intro conjI impI)
  qed
  from a1 a2 a3 a4 b show "(\<exists>w'. downloadResources E order (map Some rs) w =
             (Returned (mergeStep (map (resolveContent E) rs)), w')
           \<and> Warn (FailedToLoad u msg) \<in> set (console w'))
     \<and> resolveContent E (rs ! i) = \<lparr>sourceLabel = l, resolvedText = [], succeeded = False\<rparr>
     \<and> fst (downloadResources E order [Some (rs ! i)] w) = Returned []
     \<and> mergeStep (map (resolveContent E) rs) =
         join [CHR 0x0A, CHR 0x0A]
           (map (\<lambda>r. mergeEntry (resolveContent E r)) (take i rs)
              @ [] # map (\<lambda>r. mergeEntry (resolveContent E r)) (drop (Suc i) rs))
     \<and> (axiosGet E targetUrl = Inr html \<and> parseResources E html targetUrl cls = Inr found
          \<and> fst (promptSelection E found cls (includeAll E) emptyWorld) = Returned (map Some rs)
          \<and> visibleName = (if truthy sharedName then (case sharedName of Some n \<Rightarrow> n | None \<Rightarrow> [])
                             else inputPrompt E cls)
          \<and> stageable E (modeFileName cls) (disk w0)
          \<and> (noZip E
               \<or> disk w0 (OUTPUT_DIR E @ [slugify visibleName (modeString cls) @ ''.zip'']) \<noteq> Some Dir) \<longrightarrow>
          fst (runOnce E targetUrl cls sharedName w0) = Returned ()
          \<and> Warn (FailedToLoad u msg) \<in> set (console (snd (runOnce E targetUrl cls sharedName w0)))
          \<and> (\<not> noZip E \<longrightarrow>
                disk (snd (runOnce E targetUrl cls sharedName w0))
                  (OUTPUT_DIR E @ [slugify visibleName (modeString cls) @ ''.zip'']) =
                Some (Archive
                  [(''assets/'' @ modeFileName cls, mergeStep (map (resolveContent E) rs)),
                   (''client-extension.yaml'',
                    generateYaml E (slugify visibleName (modeString cls)) visibleName cls
                      (modeFileName cls))]))
          \<and> (noZip E \<longrightarrow>
                disk (snd (runOnce E targetUrl cls sharedName w0)) (ASSETS_DIR E @ [modeFileName cls]) =
                Some (File (mergeStep (map (resolveContent E) rs)))))"
    by (intro conjI impI) blast+
qed

lemma demo_select_all:
  "fst (promptSelection demoEnv
          [External ''https://x.test/a.css'' ''https://x.test/a.css'',
           Inline ''<style> inline #1'' ''body{color:red}'',
           External ''https://x.test/gone.css'' ''https://x.test/gone.css'']
          Css (includeAll demoEnv) emptyWorld) =
     Returned (map Some
       [External ''https://x.test/a.css'' ''https://x.test/a.css'',
        Inline ''<style> inline #1'' ''body{color:red}'',
        External ''https://x.test/gone.css'' ''https://x.test/gone.css''])"
  by (simp add: promptSelection_def demoEnv_def)

lemma demo_zip_path:
  "OUTPUT_DIR demoEnv @ [slugify ''Shop'' (modeString Css) @ ''.zip''] =
     [''app'', ''output'', ''shop-css.zip'']"
  by code_simp

theorem failed_fetch_tolerated_witness:
  "(\<exists>w'. downloadResources demoEnv [2, 0]
            (map Some
               [External ''https://x.test/a.css'' ''https://x.test/a.css'',
                Inline ''<style> inline #1'' ''body{color:red}'',
                External ''https://x.test/gone.css'' ''https://x.test/gone.css''])
            emptyWorld =
          (Returned
             (''/* https://x.test/a.css */'' @ [CHR 0x0A] @ ''a{}'' @ [CHR 0x0A, CHR 0x0A]
                @ ''/* <style> inline #1 */'' @ [CHR 0x0A] @ ''body{color:red}''
                @ [CHR 0x0A, CHR 0x0A]), w')
        \<and> Warn (FailedToLoad ''https://x.test/gone.css'' ''Request failed with status code 404'')
            \<in> set (console w'))
   \<and> resolveContent demoEnv (External ''https://x.test/gone.css'' ''https://x.test/gone.css'') =
       \<lparr>sourceLabel = ''https://x.test/gone.css'', resolvedText = [], succeeded = False\<rparr>
   \<and> fst (downloadResources demoEnv [2, 0]
            [Some (External ''https://x.test/gone.css'' ''https://x.test/gone.css'')] emptyWorld) =
       Returned []
   \<and> fst (runOnce demoEnv ''https://x.test/'' Css (Some ''Shop'') emptyWorld) = Returned ()
   \<and> Warn (FailedToLoad ''https://x.test/gone.css'' ''Request failed with status code 404'')
       \<in> set (console (snd (runOnce demoEnv ''https://x.test/'' Css (Some ''Shop'') emptyWorld)))
   \<and> disk (snd (runOnce demoEnv ''https://x.test/'' Css (Some ''Shop'') emptyWorld))
         [''app'', ''output'', ''shop-css.zip''] =
       Some (Archive
         [(''assets/global.css'',
           ''/* https://x.test/a.css */'' @ [CHR 0x0A] @ ''a{}'' @ [CHR 0x0A, CHR 0x0A]
             @ ''/* <style> inline #1 */'' @ [CHR 0x0A] @ ''body{color:red}''
             @ [CHR 0x0A, CHR 0x0A]),
          (''client-extension.yaml'', ''assemble: ...'')])"
proof -
  let ?gone = "External ''https://x.test/gone.css'' ''https://x.test/gone.css''"
  let ?rs = "[External ''https://x.test/a.css'' ''https://x.test/a.css'',
              Inline ''<style> inline #1'' ''body{color:red}'', ?gone]"
  let ?warning = "Warn (FailedToLoad ''https://x.test/gone.css'' ''Request failed with status code 404'')"
  let ?data = "''/* https://x.test/a.css */'' @ [CHR 0x0A] @ ''a{}'' @ [CHR 0x0A, CHR 0x0A]
      @ ''/* <style> inline #1 */'' @ [CHR 0x0A] @ ''body{color:red}'' @ [CHR 0x0A, CHR 0x0A]"
  have nth: "?rs ! 2 = ?gone"
    by simp
  have failing: "2 < length ?rs \<and> ?rs ! 2 = ?gone
      \<and> axiosGet demoEnv ''https://x.test/gone.css'' = Inl ''Request failed with status code 404''
      \<and> (\<forall>r\<in>set ?rs. discovered r)"
    by (simp add: demoEnv_def)
  have empty: "disk emptyWorld = Map.empty"
    by (simp add: emptyWorld_def)
  have paths: "ASSETS_DIR demoEnv = [''app'', ''output'', ''temp'', ''assets'']"
    "TEMP_DIR demoEnv = [''app'', ''output'', ''temp'']"
    by (simp_all add: dirs demoEnv_def)
  have run: "axiosGet demoEnv ''https://x.test/'' = Inr ''<html>''
      \<and> parseResources demoEnv ''<html>'' ''https://x.test/'' Css = Inr ?rs
      \<and> fst (promptSelection demoEnv ?rs Css (includeAll demoEnv) emptyWorld) = Returned (map Some ?rs)
      \<and> ''Shop'' = (if truthy (Some ''Shop'') then (case Some ''Shop'' of Some n \<Rightarrow> n | None \<Rightarrow> [])
                     else inputPrompt demoEnv Css)
      \<and> stageable demoEnv (modeFileName Css) (disk emptyWorld)
      \<and> (noZip demoEnv
           \<or> disk emptyWorld (OUTPUT_DIR demoEnv @ [slugify ''Shop'' (modeString Css) @ ''.zip'']) \<noteq> Some Dir)"
    using demo_parse_css demo_select_all
    by (simp add: demoEnv_def stageable_def empty regularFile_def list_all_iff)
  have zip: "\<not> noZip demoEnv"
    by (simp add: demoEnv_def)
  have yaml: "generateYaml demoEnv (slugify ''Shop'' (modeString Css)) ''Shop'' Css (modeFileName Css) =
      ''assemble: ...''"
    by (simp add: generateYaml_def demoEnv_def)
  note inst = failed_fetch_tolerated [where i = 2 and rs = ?rs and l = "''https://x.test/gone.css''"
      and u = "''https://x.test/gone.css''" and E = demoEnv
      and msg = "''Request failed with status code 404''" and order = "[2, 0]" and w = emptyWorld
      and targetUrl = "''https://x.test/''" and html = "''<html>''" and cls = Css and found = ?rs
      and visibleName = "''Shop''" and sharedName = "Some ''Shop''" and ?w0.0 = emptyWorld]
  from inst failing have a: "\<exists>w'. downloadResources demoEnv [2, 0] (map Some ?rs) emptyWorld =
        (Returned (mergeStep (map (resolveContent demoEnv) ?rs)), w')
      \<and> ?warning \<in> set (console w')"
    and b: "resolveContent demoEnv (?rs ! 2) =
        \<lparr>sourceLabel = ''https://x.test/gone.css'', resolvedText = [], succeeded = False\<rparr>"
    and c: "fst (downloadResources demoEnv [2, 0] [Some (?rs ! 2)] emptyWorld) = Returned []"
    by blast+
  from inst failing run zip
  have d: "fst (runOnce demoEnv ''https://x.test/'' Css (Some ''Shop'') emptyWorld) = Returned ()"
    and e: "?warning \<in> set (console (snd (runOnce demoEnv ''https://x.test/'' Css (Some ''Shop'') emptyWorld)))"
    and f: "disk (snd (runOnce demoEnv ''https://x.test/'' Css (Some ''Shop'') emptyWorld))
        (OUTPUT_DIR demoEnv @ [slugify ''Shop'' (modeString Css) @ ''.zip'']) =
        Some (Archive
          [(''assets/'' @ modeFileName Css, mergeStep (map (resolveContent demoEnv) ?rs)),
           (''client-extension.yaml'',
            generateYaml demoEnv (slugify ''Shop'' (modeString Css)) ''Shop'' Css (modeFileName Css))])"
    by blast+
  from a have a': "\<exists>w'. downloadResources demoEnv [2, 0] (map Some ?rs) emptyWorld =
        (Returned ?data, w') \<and> ?warning \<in> set (console w')"
    unfolding demo_mergeStep .
  from f have f': "disk (snd (runOnce demoEnv ''https://x.test/'' Css (Some ''Shop'') emptyWorld))
        [''app'', ''output'', ''shop-css.zip''] =
        Some (Archive [(''assets/global.css'', ?data), (''client-extension.yaml'', ''assemble: ...'')])"
    unfolding demo_zip_path yaml demo_mergeStep by simp
  from a' b [unfolded nth] c [unfolded nth] d e f' show ?thesis
    by (intro conjI)
qed

section \<open>Runs that end early\<close>

lemma runOnce_nothing_found:
  "axiosGet E targetUrl = Inr html \<Longrightarrow> parseResources E html targetUrl cls = Inr [] \<Longrightarrow>
     runOnce E targetUrl cls sharedName w =
       (Returned (),
        w\<lparr>console := console w @ [Log (Fetching targetUrl cls), Log (NoResourcesFound cls)],
          requests := requests w @ [targetUrl]\<rparr>)"
  by (simp add: runOnce_def fetchPage_ok say_def)

lemma runOnce_none_selected:
  "axiosGet E targetUrl = Inr html \<Longrightarrow> parseResources E html targetUrl cls = Inr found \<Longrightarrow>
     found \<noteq> [] \<Longrightarrow> \<not> includeAll E \<Longrightarrow> checkbox E cls (choicesFor found) = Inr [] \<Longrightarrow>
     runOnce E targetUrl cls sharedName w =
       (Returned (),
        w\<lparr>console := console w @ [Log (Fetching targetUrl cls), Log (NoneSelected cls)],
          requests := requests w @ [targetUrl],
          prompted := prompted w @ [choicesFor found]\<rparr>)"
  by (simp add: runOnce_def fetchPage_ok promptSelection_def say_def)

lemma promptSelection_empty_result:
  "found \<noteq> [] \<Longrightarrow> fst (promptSelection E found cls b w) = Returned [] \<Longrightarrow>
     \<not> b \<and> checkbox E cls (choicesFor found) = Inr []"
  by (auto simp: promptSelection_def Let_def split: if_splits sum.splits)

lemma runOnce_page_fails:
  "axiosGet E targetUrl = Inl msg \<Longrightarrow>
     runOnce E targetUrl cls sharedName w =
       (Threw (Error (''Failed to fetch page: '' @ msg)),
        w\<lparr>console := console w @ [Log (Fetching targetUrl cls)],
          requests := requests w @ [targetUrl]\<rparr>)"
  by (simp add: runOnce_def fetchPage_fails say_def)

lemma promptSelection_prompted:
  "promptSelection E rs cls b w = (c, w') \<Longrightarrow>
     prompted w' = (if b then prompted w else prompted w @ [choicesFor rs])"
  by (auto simp: promptSelection_def Let_def say_def split: if_splits sum.splits)

lemma downloadResources_prompted:
  "downloadResources E order rs w = (c, w') \<Longrightarrow> prompted w' = prompted w"
proof -
  assume dl: "downloadResources E order rs w = (c, w')"
  obtain ps0 w0 where st: "startAll rs w = (ps0, w0)"
    by (cases "startAll rs w")
  obtain ps w1 where fin: "fold (arrive E rs) (order @ [0..<length rs]) (ps0, w0) = (ps, w1)"
    by (cases "fold (arrive E rs) (order @ [0..<length rs]) (ps0, w0)")
  from startAll_frame [OF st] fold_arrive_frame [OF fin]
  have "prompted w0 = prompted w" and "prompted w1 = prompted w"
    by simp_all
  moreover from dl have "w' = w0 \<or> w' = w1"
    unfolding downloadResources_def st prod.case fin
    by (auto split: option.splits)
  ultimately show ?thesis
    by auto
qed

lemma saveFiles_prompted:
  "saveFiles E fileName data yamlContent technicalName noZipFlag w = (r, w') \<Longrightarrow>
     prompted w' = prompted w"
  by (auto simp: saveFiles_def Let_def say_def split: sum.splits if_splits)

lemma say_prompted: "prompted (say out w) = prompted w"
  by (simp add: say_def)

lemma runOnce_prompted:
  assumes page: "axiosGet E targetUrl = Inr html"
    and parse: "parseResources E html targetUrl cls = Inr found"
    and found: "found \<noteq> []"
  shows "prompted (snd (runOnce E targetUrl cls sharedName w)) =
      (if includeAll E then prompted w else prompted w @ [choicesFor found])"
proof -
  let ?w0 = "say (Log (Fetching targetUrl cls)) w"
  let ?w1 = "?w0\<lparr>requests := requests ?w0 @ [targetUrl]\<rparr>"
  obtain picked w2 where ps: "promptSelection E found cls (includeAll E) ?w1 = (picked, w2)"
    by (cases "promptSelection E found cls (includeAll E) ?w1")
  from promptSelection_prompted [OF ps]
  have p2: "prompted w2 = (if includeAll E then prompted w else prompted w @ [choicesFor found])"
    by (simp add: say_def)
  have "prompted (snd (runOnce E targetUrl cls sharedName w)) = prompted w2"
    unfolding runOnce_def fetchPage_ok [OF page]
    using parse found
    by (auto simp: ps Let_def say_prompted split: completion.splits prod.splits sum.splits
        dest!: downloadResources_prompted saveFiles_prompted)
  with p2 show ?thesis
    by simp
qed

lemma runOnce_prompts:
  "prompted (snd (runOnce E targetUrl cls sharedName w)) = prompted w
   \<or> (\<exists>html found. axiosGet E targetUrl = Inr html
         \<and> parseResources E html targetUrl cls = Inr found \<and> found \<noteq> [] \<and> \<not> includeAll E
         \<and> prompted (snd (runOnce E targetUrl cls sharedName w)) = prompted w @ [choicesFor found])"
proof (cases "axiosGet E targetUrl")
  case (Inl msg)
  then show ?thesis
    by (simp add: runOnce_page_fails)
next
  case (Inr html)
  show ?thesis
  proof (cases "parseResources E html targetUrl cls")
    case (Inl e)
    then show ?thesis
      by (simp add: runOnce_def fetchPage_ok [OF Inr] say_def)
  next
    case parsed: (Inr found)
    show ?thesis
    proof (cases "found = []")
      case True
      with Inr parsed show ?thesis
        by (simp add: runOnce_nothing_found)
    next
      case False
      from runOnce_prompted [OF Inr parsed False, of sharedName w] Inr parsed False show ?thesis
        by (cases "includeAll E") auto
    qed
  qed
qed


text \<open>
  C6. \<open>runOnce\<close> calls \<open>promptSelection\<close> only on a list that is not empty. When nothing
  is discovered the run ends before it: the selection service is not invoked, the
  console reports that no resources were found, the disk is untouched and the run
  returns normally. Whatever the run, the service is invoked at most once, and then with
  the items of a discovery that is not empty. When the operator approves none, the run
  reports it and returns normally, leaving the disk untouched. An empty approved result
  arises in no other way.
\<close>

theorem empty_selection_ends_run:
  "(axiosGet E targetUrl = Inr html \<and> parseResources E html targetUrl cls = Inr [] \<longrightarrow>
      runOnce E targetUrl cls sharedName w =
        (Returned (),
         w\<lparr>console := console w @ [Log (Fetching targetUrl cls), Log (NoResourcesFound cls)],
           requests := requests w @ [targetUrl]\<rparr>))
   \<and> (prompted (snd (runOnce E targetUrl cls sharedName w)) = prompted w
       \<or> (\<exists>page items. axiosGet E targetUrl = Inr page
             \<and> parseResources E page targetUrl cls = Inr items \<and> items \<noteq> [] \<and> \<not> includeAll E
             \<and> prompted (snd (runOnce E targetUrl cls sharedName w)) =
                 prompted w @ [choicesFor items]))
   \<and> (axiosGet E targetUrl = Inr html \<and> parseResources E html targetUrl cls = Inr found
        \<and> found \<noteq> [] \<and> \<not> includeAll E \<and> checkbox E cls (choicesFor found) = Inr [] \<longrightarrow>
        runOnce E targetUrl cls sharedName w =
          (Returned (),
           w\<lparr>console := console w @ [Log (Fetching targetUrl cls), Log (NoneSelected cls)],
             requests := requests w @ [targetUrl],
             prompted := prompted w @ [choicesFor found]\<rparr>))
   \<and> (found \<noteq> [] \<and> fst (promptSelection E found cls (includeAll E) w) = Returned [] \<longrightarrow>
        \<not> includeAll E \<and> checkbox E cls (choicesFor found) = Inr [])"
proof (intro conjI impI)
  assume "axiosGet E targetUrl = Inr html \<and> parseResources E html targetUrl cls = Inr []"
  then have "axiosGet E targetUrl = Inr html" and "parseResources E html targetUrl cls = Inr []"
    by simp_all
  then show "runOnce E targetUrl cls sharedName w =
      (Returned (),
       w\<lparr>console := console w @ [Log (Fetching targetUrl cls), Log (NoResourcesFound cls)],
         requests := requests w @ [targetUrl]\<rparr>)"
    by (rule runOnce_nothing_found)
next
  show "prompted (snd (runOnce E targetUrl cls sharedName w)) = prompted w
       \<or> (\<exists>page items. axiosGet E targetUrl = Inr page
             \<and> parseResources E page targetUrl cls = Inr items \<and> items \<noteq> [] \<and> \<not> includeAll E
             \<and> prompted (snd (runOnce E targetUrl cls sharedName w)) =
                 prompted w @ [choicesFor items])"
    by (rule runOnce_prompts)
next
  assume "axiosGet E targetUrl = Inr html \<and> parseResources E html targetUrl cls = Inr found
      \<and> found \<noteq> [] \<and> \<not> includeAll E \<and> checkbox E cls (choicesFor found) = Inr []"
  then have "axiosGet E targetUrl = Inr html" and "parseResources E html targetUrl cls = Inr found"
    and "found \<noteq> []" and "\<not> includeAll E" and "checkbox E cls (choicesFor found) = Inr []"
    by simp_all
  then show "runOnce E targetUrl cls sharedName w =
      (Returned (),
       w\<lparr>console := console w @ [Log (Fetching targetUrl cls), Log (NoneSelected cls)],
         requests := requests w @ [targetUrl],
         prompted := prompted w @ [choicesFor found]\<rparr>)"
    by (rule runOnce_none_selected)
next
  assume h: "found \<noteq> [] \<and> fst (promptSelection E found cls (includeAll E) w) = Returned []"
  then have "found \<noteq> []" and "fst (promptSelection E found cls (includeAll E) w) = Returned []"
    by simp_all
  then have "\<not> includeAll E \<and> checkbox E cls (choicesFor found) = Inr []"
    by (rule promptSelection_empty_result)
  then show "\<not> includeAll E" and "checkbox E cls (choicesFor found) = Inr []"
    by simp_all
qed

lemma demo_js_found:
  "parseResources declineEnv ''<html>'' ''https://x.test/'' Js =
     Inr [External ''https://x.test/app.js'' ''https://x.test/app.js'',
          Inline ''<script> inline #1'' ''init()'']"
  by code_simp

theorem empty_selection_ends_run_witness:
  "runOnce blankEnv ''https://x.test/'' Css None emptyWorld =
     (Returned (),
      emptyWorld\<lparr>console := console emptyWorld
                    @ [Log (Fetching ''https://x.test/'' Css), Log (NoResourcesFound Css)],
                  requests := requests emptyWorld @ [''https://x.test/'']\<rparr>)
   \<and> runOnce declineEnv ''https://x.test/'' Js None emptyWorld =
       (Returned (),
        emptyWorld\<lparr>console := console emptyWorld
                      @ [Log (Fetching ''https://x.test/'' Js), Log (NoneSelected Js)],
                    requests := requests emptyWorld @ [''https://x.test/''],
                    prompted := prompted emptyWorld
                      @ [choicesFor [External ''https://x.test/app.js'' ''https://x.test/app.js'',
                                     Inline ''<script> inline #1'' ''init()'']]\<rparr>)
   \<and> checkbox declineEnv Js
         (choicesFor [External ''https://x.test/app.js'' ''https://x.test/app.js'',
                      Inline ''<script> inline #1'' ''init()'']) = Inr []"
proof -
  let ?found = "[External ''https://x.test/app.js'' ''https://x.test/app.js'',
                 Inline ''<script> inline #1'' ''init()'']"
  have blank: "axiosGet blankEnv ''https://x.test/'' = Inr ''<html>''
      \<and> parseResources blankEnv ''<html>'' ''https://x.test/'' Css = Inr []"
    by (simp add: blankEnv_def demoEnv_def parseResources_def)
  have decline: "axiosGet declineEnv ''https://x.test/'' = Inr ''<html>''
      \<and> parseResources declineEnv ''<html>'' ''https://x.test/'' Js = Inr ?found
      \<and> ?found \<noteq> [] \<and> \<not> includeAll declineEnv \<and> checkbox declineEnv Js (choicesFor ?found) = Inr []"
    using demo_js_found by (simp add: declineEnv_def demoEnv_def)
  have none: "?found \<noteq> []
      \<and> fst (promptSelection declineEnv ?found Js (includeAll declineEnv) emptyWorld) = Returned []"
    by (simp add: promptSelection_def declineEnv_def)
  note first = empty_selection_ends_run [where E = blankEnv and targetUrl = "''https://x.test/''"
      and html = "''<html>''" and cls = Css and sharedName = None and w = emptyWorld]
  note second = empty_selection_ends_run [where E = declineEnv and targetUrl = "''https://x.test/''"
      and html = "''<html>''" and cls = Js and sharedName = None and w = emptyWorld
      and found = ?found]
  from first blank have a: "runOnce blankEnv ''https://x.test/'' Css None emptyWorld =
     (Returned (),
      emptyWorld\<lparr>console := console emptyWorld
                    @ [Log (Fetching ''https://x.test/'' Css), Log (NoResourcesFound Css)],
                  requests := requests emptyWorld @ [''https://x.test/'']\<rparr>)"
    by blast
  from second decline have c: "runOnce declineEnv ''https://x.test/'' Js None emptyWorld =
       (Returned (),
        emptyWorld\<lparr>console := console emptyWorld
                      @ [Log (Fetching ''https://x.test/'' Js), Log (NoneSelected Js)],
                    requests := requests emptyWorld @ [''https://x.test/''],
                    prompted := prompted emptyWorld @ [choicesFor ?found]\<rparr>)"
    by blast
  from second none have d: "checkbox declineEnv Js (choicesFor ?found) = Inr []"
    by blast
  from a c d show ?thesis
    by (intro conjI)
qed

section \<open>The page cannot be fetched\<close>

text \<open>
  C9. When the request for the page fails, on the network or with a status that is not
  a success, \<open>fetchPage\<close> throws an error that carries the message of the transport
  error, after one request and no other; the run of that class ends with this error
  and the disk is as before: no artifact. So does the script, whose second run does not
  start when the first one fails.
\<close>

theorem page_fetch_failure_aborts:
  "axiosGet E targetUrl = Inl msg \<longrightarrow>
     fetchPage E targetUrl w =
       (Threw (Error (''Failed to fetch page: '' @ msg)), w\<lparr>requests := requests w @ [targetUrl]\<rparr>)
     \<and> runOnce E targetUrl cls sharedName w =
         (Threw (Error (''Failed to fetch page: '' @ msg)),
          w\<lparr>console := console w @ [Log (Fetching targetUrl cls)],
            requests := requests w @ [targetUrl]\<rparr>)
     \<and> (targetUrl \<noteq> []
          \<and> (modeArg = None \<or> modeArg = Some [] \<or> modeArg = Some ''css'' \<or> modeArg = Some ''js'') \<longrightarrow>
          fst (main E (Some targetUrl) modeArg sharedName w) =
            Threw (Error (''Failed to fetch page: '' @ msg))
          \<and> requests (snd (main E (Some targetUrl) modeArg sharedName w)) = requests w @ [targetUrl]
          \<and> disk (snd (main E (Some targetUrl) modeArg sharedName w)) = disk w)"
proof (intro impI conjI)
  assume fails: "axiosGet E targetUrl = Inl msg"
  then show "fetchPage E targetUrl w =
      (Threw (Error (''Failed to fetch page: '' @ msg)), w\<lparr>requests := requests w @ [targetUrl]\<rparr>)"
    by (rule fetchPage_fails)
  from fails show "runOnce E targetUrl cls sharedName w =
      (Threw (Error (''Failed to fetch page: '' @ msg)),
       w\<lparr>console := console w @ [Log (Fetching targetUrl cls)],
         requests := requests w @ [targetUrl]\<rparr>)"
    by (rule runOnce_page_fails)
  assume args: "targetUrl \<noteq> []
      \<and> (modeArg = None \<or> modeArg = Some [] \<or> modeArg = Some ''css'' \<or> modeArg = Some ''js'')"
  have entry: "main E (Some targetUrl) modeArg sharedName w =
      (Threw (Error (''Failed to fetch page: '' @ msg)),
       w\<lparr>console := console w @ [Log (Fetching targetUrl (if modeArg = Some ''js'' then Js else Css))],
         requests := requests w @ [targetUrl]\<rparr>)"
    using args by (auto simp: main_def runOnce_page_fails [OF fails])
  show "fst (main E (Some targetUrl) modeArg sharedName w) =
      Threw (Error (''Failed to fetch page: '' @ msg))"
    by (simp add: entry)
  show "requests (snd (main E (Some targetUrl) modeArg sharedName w)) = requests w @ [targetUrl]"
    by (simp add: entry)
  show "disk (snd (main E (Some targetUrl) modeArg sharedName w)) = disk w"
    by (simp add: entry)
qed

theorem page_fetch_failure_aborts_witness:
  "runOnce demoEnv ''https://down.test/'' Js None emptyWorld =
     (Threw (Error (''Failed to fetch page: '' @ ''Request failed with status code 404'')),
      emptyWorld\<lparr>console := console emptyWorld @ [Log (Fetching ''https://down.test/'' Js)],
                  requests := requests emptyWorld @ [''https://down.test/'']\<rparr>)
   \<and> fst (main demoEnv (Some ''https://down.test/'') None None emptyWorld) =
       Threw (Error (''Failed to fetch page: '' @ ''Request failed with status code 404''))
   \<and> requests (snd (main demoEnv (Some ''https://down.test/'') None None emptyWorld)) =
       requests emptyWorld @ [''https://down.test/'']"
proof -
  have fails: "axiosGet demoEnv ''https://down.test/'' = Inl ''Request failed with status code 404''"
    by (simp add: demoEnv_def)
  have args: "''https://down.test/'' \<noteq> []
      \<and> (None = None \<or> None = Some [] \<or> None = Some ''css'' \<or> None = Some ''js'')"
    by simp
  from page_fetch_failure_aborts [of demoEnv "''https://down.test/''"
      "''Request failed with status code 404''" emptyWorld Js None None] fails args
  show ?thesis
    by blast
qed

end
